theory Spec2Isabelle
  imports Complex_Main "HOL-Library.Log_Nat" "HOL-Library.List_Lexorder" "HOL-Library.Sublist"
begin

section \<open>Text\<close>

text \<open>
  A Python \<open>str\<close> is a sequence of Unicode code points, compared code point by code
  point (\<open>==\<close>) and ordered lexicographically (\<open><\<close>, which is the order pandas sorts
  strings by). It is modelled as the list of its code points, with the lexicographic
  order of lists. The literals of \<open>hr.py\<close> are Arabic; each one is given below by its
  code points, with the line it comes from.
\<close>

type_synonym ustr = "nat list"

fun digits :: "nat \<Rightarrow> ustr" where
  "digits n = (if n < 10 then [0x30 + n] else digits (n div 10) @ [0x30 + n mod 10])"

declare digits.simps [simp del]

definition str_int :: "int \<Rightarrow> ustr" where
  \<comment> \<open>\<open>str\<close> of an integer: a minus sign for a negative one, then the decimal digits\<close>
  "str_int i = (if i < 0 then 0x2D # digits (nat (- i)) else digits (nat i))"

subsection \<open>The literals of the source\<close>

definition gender_male :: ustr where
  \<comment> \<open>hr.py line 176: the value of the gender column that means male\<close>
  "gender_male =
     [0x630, 0x643, 0x631]"

definition gender_female :: ustr where
  \<comment> \<open>hr.py line 177: the value of the gender column that means female\<close>
  "gender_female =
     [0x623, 0x646, 0x62B, 0x649]"

definition age_lt_25 :: ustr where
  \<comment> \<open>hr.py line 151: age label, in English: less than 25\<close>
  "age_lt_25 =
     [0x623, 0x642, 0x644, 0x20, 0x645, 0x646, 0x20, 0x32, 0x35]"

definition age_25_35 :: ustr where
  \<comment> \<open>hr.py line 151: age label, in English: 25-35\<close>
  "age_25_35 =
     [0x32, 0x35, 0x2D, 0x33, 0x35]"

definition age_35_45 :: ustr where
  \<comment> \<open>hr.py line 151: age label, in English: 35-45\<close>
  "age_35_45 =
     [0x33, 0x35, 0x2D, 0x34, 0x35]"

definition age_45_55 :: ustr where
  \<comment> \<open>hr.py line 151: age label, in English: 45-55\<close>
  "age_45_55 =
     [0x34, 0x35, 0x2D, 0x35, 0x35]"

definition age_gt_55 :: ustr where
  \<comment> \<open>hr.py line 151: age label, in English: more than 55\<close>
  "age_gt_55 =
     [0x623, 0x643, 0x62B, 0x631, 0x20, 0x645, 0x646, 0x20, 0x35, 0x35]"

definition service_lt_1 :: ustr where
  \<comment> \<open>hr.py line 156: service label, in English: less than a year\<close>
  "service_lt_1 =
     [0x623, 0x642, 0x644, 0x20, 0x645, 0x646, 0x20, 0x633, 0x646, 0x629]"

definition service_1_3 :: ustr where
  \<comment> \<open>hr.py line 156: service label, in English: 1-3 years\<close>
  "service_1_3 =
     [0x31, 0x2D, 0x33, 0x20, 0x633, 0x646, 0x648, 0x627, 0x62A]"

definition service_3_5 :: ustr where
  \<comment> \<open>hr.py line 156: service label, in English: 3-5 years\<close>
  "service_3_5 =
     [0x33, 0x2D, 0x35, 0x20, 0x633, 0x646, 0x648, 0x627, 0x62A]"

definition service_5_10 :: ustr where
  \<comment> \<open>hr.py line 156: service label, in English: 5-10 years\<close>
  "service_5_10 =
     [0x35, 0x2D, 0x31, 0x30, 0x20, 0x633, 0x646, 0x648, 0x627, 0x62A]"

definition service_gt_10 :: ustr where
  \<comment> \<open>hr.py line 156: service label, in English: more than 10 years\<close>
  "service_gt_10 =
     [0x623, 0x643, 0x62B, 0x631, 0x20, 0x645, 0x646, 0x20, 0x31, 0x30, 0x20, 0x633, 0x646,
      0x648, 0x627, 0x62A]"

definition salary_lt_5000 :: ustr where
  \<comment> \<open>hr.py line 161: salary label, in English: less than 5000\<close>
  "salary_lt_5000 =
     [0x623, 0x642, 0x644, 0x20, 0x645, 0x646, 0x20, 0x35, 0x30, 0x30, 0x30]"

definition salary_5000_8000 :: ustr where
  \<comment> \<open>hr.py line 161: salary label, in English: 5000-8000\<close>
  "salary_5000_8000 =
     [0x35, 0x30, 0x30, 0x30, 0x2D, 0x38, 0x30, 0x30, 0x30]"

definition salary_8000_12000 :: ustr where
  \<comment> \<open>hr.py line 161: salary label, in English: 8000-12000\<close>
  "salary_8000_12000 =
     [0x38, 0x30, 0x30, 0x30, 0x2D, 0x31, 0x32, 0x30, 0x30, 0x30]"

definition salary_12000_20000 :: ustr where
  \<comment> \<open>hr.py line 161: salary label, in English: 12000-20000\<close>
  "salary_12000_20000 =
     [0x31, 0x32, 0x30, 0x30, 0x30, 0x2D, 0x32, 0x30, 0x30, 0x30, 0x30]"

definition salary_gt_20000 :: ustr where
  \<comment> \<open>hr.py line 161: salary label, in English: more than 20000\<close>
  "salary_gt_20000 =
     [0x623, 0x643, 0x62B, 0x631, 0x20, 0x645, 0x646, 0x20, 0x32, 0x30, 0x30, 0x30, 0x30]"

definition msg_male_high :: ustr where
  \<comment> \<open>hr.py line 180: the f-string before {male_pct:.1f}; in English: male attrition rate is very high (\<close>
  "msg_male_high =
     [0x1F6A8, 0x20, 0x645, 0x639, 0x62F, 0x644, 0x20, 0x62A, 0x631, 0x643, 0x20, 0x627,
      0x644, 0x630, 0x643, 0x648, 0x631, 0x20, 0x645, 0x631, 0x62A, 0x641, 0x639, 0x20, 0x62C,
      0x62F, 0x627, 0x64B, 0x20, 0x28]"

definition msg_pct_close :: ustr where
  \<comment> \<open>hr.py line 180: the two characters that end the f-strings of lines 180, 182, 187 and 207: %)\<close>
  "msg_pct_close =
     [0x25, 0x29]"

definition msg_female_high :: ustr where
  \<comment> \<open>hr.py line 182: the f-string before {female_pct:.1f}; in English: female attrition rate is higher than expected (\<close>
  "msg_female_high =
     [0x26A0, 0xFE0F, 0x20, 0x645, 0x639, 0x62F, 0x644, 0x20, 0x62A, 0x631, 0x643, 0x20,
      0x627, 0x644, 0x625, 0x646, 0x627, 0x62B, 0x20, 0x623, 0x639, 0x644, 0x649, 0x20, 0x645,
      0x646, 0x20, 0x627, 0x644, 0x645, 0x62A, 0x648, 0x642, 0x639, 0x20, 0x28]"

definition msg_top_reason :: ustr where
  \<comment> \<open>hr.py line 187: the f-string before {top_reason}; in English: the most common reason:\<close>
  "msg_top_reason =
     [0x1F4CA, 0x20, 0x627, 0x644, 0x633, 0x628, 0x628, 0x20, 0x627, 0x644, 0x623, 0x643,
      0x62B, 0x631, 0x20, 0x634, 0x64A, 0x648, 0x639, 0x627, 0x64B, 0x3A, 0x20]"

definition msg_pct_open :: ustr where
  \<comment> \<open>hr.py line 187: between {top_reason} and {top_reason_pct:.1f}: a space and (\<close>
  "msg_pct_open =
     [0x20, 0x28]"

definition msg_trend_up :: ustr where
  \<comment> \<open>hr.py line 195: in English: clear upward trend in the resignation rate over the last years\<close>
  "msg_trend_up =
     [0x1F4C8, 0x20, 0x627, 0x62A, 0x62C, 0x627, 0x647, 0x20, 0x62A, 0x635, 0x627, 0x639,
      0x62F, 0x64A, 0x20, 0x648, 0x627, 0x636, 0x62D, 0x20, 0x641, 0x64A, 0x20, 0x645, 0x639,
      0x62F, 0x644, 0x20, 0x627, 0x644, 0x627, 0x633, 0x62A, 0x642, 0x627, 0x644, 0x627,
      0x62A, 0x20, 0x62E, 0x644, 0x627, 0x644, 0x20, 0x627, 0x644, 0x633, 0x646, 0x648, 0x627,
      0x62A, 0x20, 0x627, 0x644, 0x623, 0x62E, 0x64A, 0x631, 0x629]"

definition msg_trend_down :: ustr where
  \<comment> \<open>hr.py line 197: in English: notable drop in the resignation rate recently\<close>
  "msg_trend_down =
     [0x1F4C9, 0x20, 0x627, 0x646, 0x62E, 0x641, 0x627, 0x636, 0x20, 0x645, 0x644, 0x62D,
      0x648, 0x638, 0x20, 0x641, 0x64A, 0x20, 0x645, 0x639, 0x62F, 0x644, 0x20, 0x627, 0x644,
      0x627, 0x633, 0x62A, 0x642, 0x627, 0x644, 0x627, 0x62A, 0x20, 0x645, 0x624, 0x62E,
      0x631, 0x627, 0x64B]"

definition msg_top_dept :: ustr where
  \<comment> \<open>hr.py line 202: the f-string before {highest_turnover_dept}; in English: highest attrition in department:\<close>
  "msg_top_dept =
     [0x1F3E2, 0x20, 0x623, 0x639, 0x644, 0x649, 0x20, 0x645, 0x639, 0x62F, 0x644, 0x20,
      0x62A, 0x631, 0x643, 0x20, 0x641, 0x64A, 0x20, 0x625, 0x62F, 0x627, 0x631, 0x629, 0x3A,
      0x20]"

definition msg_young :: ustr where
  \<comment> \<open>hr.py line 207: the f-string before {young_employees:.1f}; in English: a high share of young employees leave (\<close>
  "msg_young =
     [0x1F476, 0x20, 0x646, 0x633, 0x628, 0x629, 0x20, 0x639, 0x627, 0x644, 0x64A, 0x629,
      0x20, 0x645, 0x646, 0x20, 0x627, 0x644, 0x645, 0x648, 0x638, 0x641, 0x64A, 0x646, 0x20,
      0x627, 0x644, 0x634, 0x628, 0x627, 0x628, 0x20, 0x64A, 0x62A, 0x631, 0x643, 0x648,
      0x646, 0x20, 0x627, 0x644, 0x639, 0x645, 0x644, 0x20, 0x28]"

definition msg_short_pre :: ustr where
  \<comment> \<open>hr.py line 212: the f-string before {short_service:.1f}: an alarm clock and a space\<close>
  "msg_short_pre =
     [0x23F0, 0x20]"

definition msg_short_post :: ustr where
  \<comment> \<open>hr.py line 212: the f-string after {short_service:.1f}; in English: % of those who resigned served less than two years\<close>
  "msg_short_post =
     [0x25, 0x20, 0x645, 0x646, 0x20, 0x627, 0x644, 0x645, 0x633, 0x62A, 0x642, 0x64A, 0x644,
      0x64A, 0x646, 0x20, 0x62E, 0x62F, 0x645, 0x648, 0x627, 0x20, 0x623, 0x642, 0x644, 0x20,
      0x645, 0x646, 0x20, 0x633, 0x646, 0x62A, 0x64A, 0x646]"

definition reason_other_job :: ustr where
  \<comment> \<open>hr.py line 251: the reason, in English: another job opportunity\<close>
  "reason_other_job =
     [0x641, 0x631, 0x635, 0x629, 0x20, 0x639, 0x645, 0x644, 0x20, 0x623, 0x62E, 0x631,
      0x649]"

definition rec_other_job_1 :: ustr where
  \<comment> \<open>hr.py line 252: in English: improve the benefits and salary package to retain talent\<close>
  "rec_other_job_1 =
     [0x1F4BC, 0x20, 0x62A, 0x62D, 0x633, 0x64A, 0x646, 0x20, 0x62D, 0x632, 0x645, 0x629,
      0x20, 0x627, 0x644, 0x645, 0x632, 0x627, 0x64A, 0x627, 0x20, 0x648, 0x627, 0x644, 0x631,
      0x648, 0x627, 0x62A, 0x628, 0x20, 0x644, 0x644, 0x627, 0x62D, 0x62A, 0x641, 0x627,
      0x638, 0x20, 0x628, 0x627, 0x644, 0x645, 0x648, 0x627, 0x647, 0x628]"

definition rec_other_job_2 :: ustr where
  \<comment> \<open>hr.py line 253: in English: develop retention programmes for outstanding employees\<close>
  "rec_other_job_2 =
     [0x1F3AF, 0x20, 0x62A, 0x637, 0x648, 0x64A, 0x631, 0x20, 0x628, 0x631, 0x627, 0x645,
      0x62C, 0x20, 0x627, 0x644, 0x627, 0x62D, 0x62A, 0x641, 0x627, 0x638, 0x20, 0x628, 0x627,
      0x644, 0x645, 0x648, 0x638, 0x641, 0x64A, 0x646, 0x20, 0x627, 0x644, 0x645, 0x62A,
      0x645, 0x64A, 0x632, 0x64A, 0x646]"

definition reason_salary :: ustr where
  \<comment> \<open>hr.py line 254: the reason, in English: inadequate salary\<close>
  "reason_salary =
     [0x631, 0x627, 0x62A, 0x628, 0x20, 0x63A, 0x64A, 0x631, 0x20, 0x645, 0x646, 0x627,
      0x633, 0x628]"

definition rec_salary_1 :: ustr where
  \<comment> \<open>hr.py line 255: in English: review the salary structure and compare it with the market\<close>
  "rec_salary_1 =
     [0x1F4B0, 0x20, 0x645, 0x631, 0x627, 0x62C, 0x639, 0x629, 0x20, 0x647, 0x64A, 0x643,
      0x644, 0x20, 0x627, 0x644, 0x631, 0x648, 0x627, 0x62A, 0x628, 0x20, 0x648, 0x645, 0x642,
      0x627, 0x631, 0x646, 0x62A, 0x647, 0x20, 0x628, 0x627, 0x644, 0x633, 0x648, 0x642]"

definition rec_salary_2 :: ustr where
  \<comment> \<open>hr.py line 256: in English: carry out a comprehensive salary study\<close>
  "rec_salary_2 =
     [0x1F4CA, 0x20, 0x625, 0x62C, 0x631, 0x627, 0x621, 0x20, 0x62F, 0x631, 0x627, 0x633,
      0x629, 0x20, 0x631, 0x648, 0x627, 0x62A, 0x628, 0x20, 0x634, 0x627, 0x645, 0x644,
      0x629]"

definition reason_environment :: ustr where
  \<comment> \<open>hr.py line 257: the reason, in English: poor work environment\<close>
  "reason_environment =
     [0x628, 0x64A, 0x626, 0x629, 0x20, 0x639, 0x645, 0x644, 0x20, 0x633, 0x64A, 0x626,
      0x629]"

definition rec_environment_1 :: ustr where
  \<comment> \<open>hr.py line 258: in English: improve the work environment and the corporate culture\<close>
  "rec_environment_1 =
     [0x1F3E2, 0x20, 0x62A, 0x62D, 0x633, 0x64A, 0x646, 0x20, 0x628, 0x64A, 0x626, 0x629,
      0x20, 0x627, 0x644, 0x639, 0x645, 0x644, 0x20, 0x648, 0x627, 0x644, 0x62B, 0x642, 0x627,
      0x641, 0x629, 0x20, 0x627, 0x644, 0x645, 0x624, 0x633, 0x633, 0x64A, 0x629]"

definition rec_environment_2 :: ustr where
  \<comment> \<open>hr.py line 259: in English: strengthen communication between management and employees\<close>
  "rec_environment_2 =
     [0x1F91D, 0x20, 0x62A, 0x639, 0x632, 0x64A, 0x632, 0x20, 0x627, 0x644, 0x62A, 0x648,
      0x627, 0x635, 0x644, 0x20, 0x628, 0x64A, 0x646, 0x20, 0x627, 0x644, 0x625, 0x62F, 0x627,
      0x631, 0x629, 0x20, 0x648, 0x627, 0x644, 0x645, 0x648, 0x638, 0x641, 0x64A, 0x646]"

definition rec_onboarding_1 :: ustr where
  \<comment> \<open>hr.py line 264: in English: develop better orientation programmes for new employees\<close>
  "rec_onboarding_1 =
     [0x1F393, 0x20, 0x62A, 0x637, 0x648, 0x64A, 0x631, 0x20, 0x628, 0x631, 0x627, 0x645,
      0x62C, 0x20, 0x62A, 0x648, 0x62C, 0x64A, 0x647, 0x20, 0x623, 0x641, 0x636, 0x644, 0x20,
      0x644, 0x644, 0x645, 0x648, 0x638, 0x641, 0x64A, 0x646, 0x20, 0x627, 0x644, 0x62C,
      0x62F, 0x62F]"

definition rec_onboarding_2 :: ustr where
  \<comment> \<open>hr.py line 265: in English: review the recruitment and selection process\<close>
  "rec_onboarding_2 =
     [0x1F4CB, 0x20, 0x645, 0x631, 0x627, 0x62C, 0x639, 0x629, 0x20, 0x639, 0x645, 0x644,
      0x64A, 0x629, 0x20, 0x627, 0x644, 0x62A, 0x648, 0x638, 0x64A, 0x641, 0x20, 0x648, 0x627,
      0x644, 0x627, 0x62E, 0x62A, 0x64A, 0x627, 0x631]"

definition rec_male :: ustr where
  \<comment> \<open>hr.py line 270: in English: focus on the needs of male employees\<close>
  "rec_male =
     [0x1F468, 0x200D, 0x1F4BC, 0x20, 0x627, 0x644, 0x62A, 0x631, 0x643, 0x64A, 0x632, 0x20,
      0x639, 0x644, 0x649, 0x20, 0x627, 0x62D, 0x62A, 0x64A, 0x627, 0x62C, 0x627, 0x62A, 0x20,
      0x627, 0x644, 0x645, 0x648, 0x638, 0x641, 0x64A, 0x646, 0x20, 0x627, 0x644, 0x630,
      0x643, 0x648, 0x631]"

definition rec_balance :: ustr where
  \<comment> \<open>hr.py line 272: in English: develop work-life balance support programmes\<close>
  "rec_balance =
     [0x1F469, 0x200D, 0x1F4BC, 0x20, 0x62A, 0x637, 0x648, 0x64A, 0x631, 0x20, 0x628, 0x631,
      0x627, 0x645, 0x62C, 0x20, 0x62F, 0x639, 0x645, 0x20, 0x627, 0x644, 0x62A, 0x648, 0x627,
      0x632, 0x646, 0x20, 0x628, 0x64A, 0x646, 0x20, 0x627, 0x644, 0x639, 0x645, 0x644, 0x20,
      0x648, 0x627, 0x644, 0x62D, 0x64A, 0x627, 0x629]"

definition rec_top_dept :: ustr where
  \<comment> \<open>hr.py line 276: the f-string before {top_dept}; in English: pay special attention to department\<close>
  "rec_top_dept =
     [0x1F3AF, 0x20, 0x625, 0x64A, 0x644, 0x627, 0x621, 0x20, 0x627, 0x647, 0x62A, 0x645,
      0x627, 0x645, 0x20, 0x62E, 0x627, 0x635, 0x20, 0x644, 0x625, 0x62F, 0x627, 0x631, 0x629,
      0x20]"

section \<open>Double-precision numbers\<close>

text \<open>
  The percentages and means of \<open>hr.py\<close> are \<open>numpy.float64\<close> values. A finite double is
  modelled by the rational number it denotes, and every arithmetic operation by the exact
  operation followed by \<open>fl\<close>, rounding to the nearest number with a 53-bit significand,
  ties to the even significand (the IEEE 754 default). Overflow and subnormal numbers are
  left out: the values of this program are ratios and means of row counts. \<open>NaN\<close> is the
  mean of an empty column; every comparison with it is false.
\<close>

definition round_half_even :: "rat \<Rightarrow> int" where
  "round_half_even y =
     (let f = \<lfloor>y\<rfloor>; r = y - of_int f
      in if r < 1 / 2 then f
         else if 1 / 2 < r then f + 1
         else if even f then f else f + 1)"

definition ilog2 :: "rat \<Rightarrow> int" where
  \<comment> \<open>for \<open>0 < x\<close>, the exponent \<open>e\<close> with \<open>2 powi e \<le> x < 2 powi (e + 1)\<close>\<close>
  "ilog2 x =
     (let (p, q) = quotient_of x; d = bitlen p - bitlen q
      in if 2 powi d \<le> x then d else d - 1)"

definition fl :: "rat \<Rightarrow> rat" where
  "fl x =
     (if x = 0 then 0
      else let u = 2 powi (ilog2 \<bar>x\<bar> - 52)
           in sgn x * of_int (round_half_even (\<bar>x\<bar> / u)) * u)"

datatype f64 = NaN | Fin rat

fun f64_mul :: "f64 \<Rightarrow> f64 \<Rightarrow> f64" where
  "f64_mul (Fin a) (Fin b) = Fin (fl (a * b))"
| "f64_mul _ _ = NaN"

fun f64_gt :: "f64 \<Rightarrow> f64 \<Rightarrow> bool" where
  "f64_gt (Fin a) (Fin b) = (b < a)"
| "f64_gt _ _ = False"

fun f64_lt :: "f64 \<Rightarrow> f64 \<Rightarrow> bool" where
  "f64_lt (Fin a) (Fin b) = (a < b)"
| "f64_lt _ _ = False"

definition f64_of_int :: "int \<Rightarrow> f64" where
  \<comment> \<open>the conversion of a Python \<open>int\<close> operand, as in \<open>male_pct > 65\<close> and \<open>* 100\<close>\<close>
  "f64_of_int i = Fin (fl (of_int i))"

definition f64_lit :: "rat \<Rightarrow> f64" where
  \<comment> \<open>a decimal literal of the source, such as \<open>1.2\<close>: the double nearest to it\<close>
  "f64_lit q = Fin (fl q)"

definition fmt_1f :: "f64 \<Rightarrow> ustr" where
  \<comment> \<open>the format \<open>:.1f\<close>: the decimal with one digit after the point that is nearest to the
      exact value of the double, ties to the even digit\<close>
  "fmt_1f x =
     (case x of
        NaN \<Rightarrow> [0x6E, 0x61, 0x6E]
      | Fin v \<Rightarrow>
          (let t = nat (round_half_even (\<bar>v\<bar> * 10))
           in (if v < 0 then [0x2D] else []) @ digits (t div 10) @ [0x2E] @ digits (t mod 10)))"

section \<open>The table\<close>

text \<open>
  One row of the input table. The columns have Arabic names in the source; in the order of
  \<open>load_sample_data\<close> they are the employee number, the gender, the age (an integer),
  the department, the reason for leaving, the year of leaving, the years of service and
  the monthly salary. The last two are floats; a float is read as the rational it denotes,
  which is exact for the comparisons with the integer bounds of the program.
\<close>

record employee =
  employee_no :: int
  gender :: ustr
  age :: int
  department :: ustr
  reason :: ustr
  leave_year :: int
  service_years :: rat
  monthly_salary :: rat

text \<open>
  \<open>process_data\<close> adds three label columns. \<open>None\<close> is the missing label (NaN) that
  \<open>pd.cut\<close> gives to a value outside all bins.
\<close>

record erow = employee +
  age_group :: "ustr option"
  service_group :: "ustr option"
  salary_group :: "ustr option"

datatype error = IndexError | TypeError

section \<open>The pandas operations of the program\<close>

definition searchsorted_left :: "'a::linorder list \<Rightarrow> 'a \<Rightarrow> nat" where
  \<comment> \<open>the number of bin edges below \<open>x\<close>, in an increasing list of edges\<close>
  "searchsorted_left bins x = length (takeWhile (\<lambda>b. b < x) bins)"

definition cut :: "'a::linorder list \<Rightarrow> ustr list \<Rightarrow> 'a \<Rightarrow> ustr option" where
  \<comment> \<open>\<open>pd.cut(x, bins=bins, labels=labels)\<close> with its defaults \<open>right=True\<close> and
      \<open>include_lowest=False\<close>, on one value: the position among the edges is found by
      \<open>searchsorted(side='left')\<close>; positions \<open>0\<close> and \<open>len(bins)\<close> are missing\<close>
  "cut bins labels x =
     (let ids = searchsorted_left bins x
      in if ids = 0 \<or> ids = length bins then None else Some (labels ! (ids - 1)))"

definition mean :: "rat list \<Rightarrow> f64" where
  \<comment> \<open>\<open>Series.mean()\<close>: NaN on an empty column, else the sum divided by the count. The
      sum of a boolean column or of counts is an integer below \<open>2 ^ 53\<close>, exact as a double;
      the division rounds\<close>
  "mean xs = (if xs = [] then NaN else Fin (fl (sum_list xs / of_nat (length xs))))"

definition unique :: "'a list \<Rightarrow> 'a list" where
  \<comment> \<open>the distinct values in the order of their first appearance\<close>
  "unique xs = rev (remdups (rev xs))"

definition mode :: "'a::linorder list \<Rightarrow> 'a list" where
  \<comment> \<open>\<open>Series.mode()\<close>: the values of highest count, sorted\<close>
  "mode xs =
     (let highest = fold max (map (count_list xs) xs) 0
      in sort (filter (\<lambda>v. count_list xs v = highest) (unique xs)))"

definition iloc0 :: "'a list \<Rightarrow> error + 'a" where
  \<comment> \<open>\<open>.iloc[0]\<close> and \<open>.index[0]\<close>: IndexError when there is no first element\<close>
  "iloc0 xs = (case xs of [] \<Rightarrow> Inl IndexError | x # _ \<Rightarrow> Inr x)"

definition value_counts :: "'a list \<Rightarrow> ('a \<times> nat) list" where
  \<comment> \<open>\<open>Series.value_counts()\<close>: the distinct values with their counts, highest count
      first; values of equal count are kept here in the order of first appearance\<close>
  "value_counts xs =
     sort_key (\<lambda>(v, c). - int c) (map (\<lambda>v. (v, count_list xs v)) (unique xs))"

definition groupby_size :: "'a::linorder list \<Rightarrow> ('a \<times> nat) list" where
  \<comment> \<open>\<open>groupby(column).size()\<close>: the distinct keys in increasing order, with their counts\<close>
  "groupby_size ks = map (\<lambda>k. (k, count_list ks k)) (sort (remdups ks))"

definition iloc_from_end :: "nat \<Rightarrow> 'a list \<Rightarrow> 'a list" where
  \<comment> \<open>\<open>.iloc[-n:]\<close>: the last \<open>n\<close> elements, all of them when there are fewer\<close>
  "iloc_from_end n xs = drop (length xs - n) xs"

definition iloc_to_end :: "nat \<Rightarrow> 'a list \<Rightarrow> 'a list" where
  \<comment> \<open>\<open>.iloc[:-n]\<close>: all but the last \<open>n\<close> elements, none when there are fewer\<close>
  "iloc_to_end n xs = take (length xs - n) xs"

definition nunique :: "'a list \<Rightarrow> nat" where
  "nunique xs = length (remdups xs)"

definition col_min :: "int list \<Rightarrow> int option" where
  \<comment> \<open>\<open>Series.min()\<close>: missing (NaN) on an empty column\<close>
  "col_min xs = (case xs of [] \<Rightarrow> None | x # ys \<Rightarrow> Some (fold min ys x))"

definition col_max :: "int list \<Rightarrow> int option" where
  "col_max xs = (case xs of [] \<Rightarrow> None | x # ys \<Rightarrow> Some (fold max ys x))"

definition str_num :: "int option \<Rightarrow> ustr" where
  \<comment> \<open>the text of a year inside an f-string; NaN prints as \<open>nan\<close>\<close>
  "str_num v = (case v of None \<Rightarrow> [0x6E, 0x61, 0x6E] | Some i \<Rightarrow> str_int i)"

definition pct :: "bool list \<Rightarrow> f64" where
  \<comment> \<open>\<open>(condition).mean() * 100\<close>: the mean of a boolean column counts \<open>True\<close> as 1\<close>
  "pct bs = f64_mul (mean (map of_bool bs)) (f64_of_int 100)"

section \<open>EmployeeAttritionAnalyzer\<close>

text \<open>
  The fields of the object that the methods below read and write. The colour scheme is a
  constant of the charts and is left out.
\<close>

record analyzer =
  data :: "erow list option"
  processed_data :: "erow list option"
  insights :: "ustr list"

definition init :: analyzer where
  "init = \<lparr>data = None, processed_data = None, insights = []\<rparr>"

subsection \<open>process_data: the three label columns\<close>

definition categorize :: "employee \<Rightarrow> erow" where
  "categorize r =
     employee.extend r
       \<lparr>age_group =
          cut [0, 25, 35, 45, 55, 100]
            [age_lt_25, age_25_35, age_35_45, age_45_55, age_gt_55] (age r),
        service_group =
          cut [0, 1, 3, 5, 10, 100]
            [service_lt_1, service_1_3, service_3_5, service_5_10, service_gt_10]
            (service_years r),
        salary_group =
          cut [0, 5000, 8000, 12000, 20000, 100000]
            [salary_lt_5000, salary_5000_8000, salary_8000_12000, salary_12000_20000,
             salary_gt_20000]
            (monthly_salary r)\<rparr>"

subsection \<open>generate_insights\<close>

text \<open>
  The method is one sequence of six blocks, each under its own comment in the source and
  each appending to the list \<open>insights\<close>. Every block is a function here; the blocks of the
  top reason and of the department can raise IndexError, the others cannot.
\<close>

definition gender_insights :: "erow list \<Rightarrow> ustr list" where
  "gender_insights df =
     (let male_pct = pct (map (\<lambda>r. gender r = gender_male) df);
          female_pct = pct (map (\<lambda>r. gender r = gender_female) df)
      in if f64_gt male_pct (f64_of_int 65)
         then [msg_male_high @ fmt_1f male_pct @ msg_pct_close]
         else if f64_gt female_pct (f64_of_int 50)
         then [msg_female_high @ fmt_1f female_pct @ msg_pct_close]
         else [])"

definition top_reason_insights :: "erow list \<Rightarrow> error + ustr list" where
  "top_reason_insights df =
     (case iloc0 (mode (map reason df)) of
        Inl e \<Rightarrow> Inl e
      | Inr top_reason \<Rightarrow>
          (let top_reason_pct = pct (map (\<lambda>r. reason r = top_reason) df)
           in Inr [msg_top_reason @ top_reason @ msg_pct_open @ fmt_1f top_reason_pct
                   @ msg_pct_close]))"

definition yearly_trend_insights :: "erow list \<Rightarrow> ustr list" where
  "yearly_trend_insights df =
     (let yearly_trend = map snd (groupby_size (map leave_year df))
      in if length yearly_trend > 1
         then
           (let recent_years = mean (map of_nat (iloc_from_end 3 yearly_trend));
                earlier_years = mean (map of_nat (iloc_to_end 3 yearly_trend))
            in if f64_gt recent_years (f64_mul earlier_years (f64_lit (12 / 10)))
               then [msg_trend_up]
               else if f64_lt recent_years (f64_mul earlier_years (f64_lit (8 / 10)))
               then [msg_trend_down]
               else [])
         else [])"

definition department_insights :: "erow list \<Rightarrow> error + ustr list" where
  "department_insights df =
     (let dept_counts = value_counts (map department df)
      in case iloc0 (map fst dept_counts) of
           Inl e \<Rightarrow> Inl e
         | Inr highest_turnover_dept \<Rightarrow> Inr [msg_top_dept @ highest_turnover_dept])"

definition age_insights :: "erow list \<Rightarrow> ustr list" where
  "age_insights df =
     (let young_employees = pct (map (\<lambda>r. age r < 30) df)
      in if f64_gt young_employees (f64_of_int 40)
         then [msg_young @ fmt_1f young_employees @ msg_pct_close]
         else [])"

definition service_insights :: "erow list \<Rightarrow> ustr list" where
  "service_insights df =
     (let short_service = pct (map (\<lambda>r. service_years r < 2) df)
      in if f64_gt short_service (f64_of_int 30)
         then [msg_short_pre @ fmt_1f short_service @ msg_short_post]
         else [])"

definition generate_insights :: "analyzer \<Rightarrow> error + analyzer" where
  "generate_insights self =
     (case processed_data self of
        None \<Rightarrow> Inr self
      | Some df \<Rightarrow>
          (case top_reason_insights df of
             Inl e \<Rightarrow> Inl e
           | Inr reason_part \<Rightarrow>
               (case department_insights df of
                  Inl e \<Rightarrow> Inl e
                | Inr dept_part \<Rightarrow>
                    Inr (self\<lparr>insights :=
                           gender_insights df @ reason_part @ yearly_trend_insights df
                           @ dept_part @ age_insights df @ service_insights df\<rparr>))))"

definition process_data :: "analyzer \<Rightarrow> employee list \<Rightarrow> (error + bool) \<times> analyzer" where
  \<comment> \<open>the result of the call, and the object as the call leaves it: an exception of
      \<open>generate_insights\<close> leaves the two tables assigned\<close>
  "process_data self df =
     (let self' = self\<lparr>data := Some (map categorize df),
                       processed_data := Some (map categorize df)\<rparr>
      in case generate_insights self' of
           Inl e \<Rightarrow> (Inl e, self')
         | Inr self'' \<Rightarrow> (Inr True, self''))"

subsection \<open>get_summary_stats\<close>

record summary =
  total_rows :: nat
  male_count :: nat
  female_count :: nat
  male_pct :: f64
  female_pct :: f64
  avg_age :: f64
  avg_service :: f64
  avg_salary :: f64
  years_range :: ustr
  unique_reasons :: nat
  unique_departments :: nat

definition get_summary_stats :: "analyzer \<Rightarrow> summary option" where
  \<comment> \<open>\<open>None\<close> is the empty dictionary returned when no table has been processed. The key
      \<open>total\<close> is the field \<open>total_rows\<close>. The sums of the two float columns are taken
      exactly and rounded once, where the library rounds after every addition\<close>
  "get_summary_stats self =
     (case processed_data self of
        None \<Rightarrow> None
      | Some df \<Rightarrow>
          (let total = length df;
               males = length (filter (\<lambda>r. gender r = gender_male) df);
               females = length (filter (\<lambda>r. gender r = gender_female) df)
           in Some
                \<lparr>total_rows = total,
                 male_count = males,
                 female_count = females,
                 male_pct =
                   (if total > 0
                    then f64_mul (Fin (fl (of_nat males / of_nat total))) (f64_of_int 100)
                    else f64_of_int 0),
                 female_pct =
                   (if total > 0
                    then f64_mul (Fin (fl (of_nat females / of_nat total))) (f64_of_int 100)
                    else f64_of_int 0),
                 avg_age = mean (map (\<lambda>r. of_int (age r)) df),
                 avg_service = mean (map service_years df),
                 avg_salary = mean (map monthly_salary df),
                 years_range =
                   str_num (col_min (map leave_year df)) @ [0x20, 0x2D, 0x20]
                   @ str_num (col_max (map leave_year df)),
                 unique_reasons = nunique (map reason df),
                 unique_departments = nunique (map department df)\<rparr>))"

subsection \<open>generate_recommendations\<close>

text \<open>
  As in \<open>generate_insights\<close>, each block under a comment of the source is a function:
  the recommendations for the top reason, for short service and for the gender share. The
  last block appends one string for the top department.
\<close>

definition reason_recommendations :: "ustr \<Rightarrow> ustr list" where
  "reason_recommendations top_reason =
     (if top_reason = reason_other_job then [rec_other_job_1, rec_other_job_2]
      else if top_reason = reason_salary then [rec_salary_1, rec_salary_2]
      else if top_reason = reason_environment then [rec_environment_1, rec_environment_2]
      else [])"

definition service_recommendations :: "erow list \<Rightarrow> ustr list" where
  "service_recommendations df =
     (let short_service_pct = pct (map (\<lambda>r. service_years r < 2) df)
      in if f64_gt short_service_pct (f64_of_int 30)
         then [rec_onboarding_1, rec_onboarding_2]
         else [])"

definition gender_recommendations :: "erow list \<Rightarrow> ustr list" where
  "gender_recommendations df =
     (let male_share = pct (map (\<lambda>r. gender r = gender_male) df)
      in if f64_gt male_share (f64_of_int 65) then [rec_male] else [rec_balance])"

definition generate_recommendations :: "analyzer \<Rightarrow> error + ustr list" where
  \<comment> \<open>the method has no guard: with no table processed, subscripting \<open>None\<close> is a
      TypeError\<close>
  "generate_recommendations self =
     (case processed_data self of
        None \<Rightarrow> Inl TypeError
      | Some df \<Rightarrow>
          (case iloc0 (mode (map reason df)) of
             Inl e \<Rightarrow> Inl e
           | Inr top_reason \<Rightarrow>
               (case iloc0 (map fst (value_counts (map department df))) of
                  Inl e \<Rightarrow> Inl e
                | Inr top_dept \<Rightarrow>
                    Inr (reason_recommendations top_reason @ service_recommendations df
                         @ gender_recommendations df @ [rec_top_dept @ top_dept]))))"

section \<open>Example tables\<close>

text \<open>
  Small tables on which the statements below are evaluated. A department or a reason may
  be any string; the examples use the reasons the program names and two short department
  names.
\<close>

definition example_row ::
  "ustr \<Rightarrow> int \<Rightarrow> ustr \<Rightarrow> ustr \<Rightarrow> int \<Rightarrow> rat \<Rightarrow> rat \<Rightarrow> employee" where
  "example_row g a d r y s m =
     \<lparr>employee_no = 0, gender = g, age = a, department = d, reason = r, leave_year = y,
      service_years = s, monthly_salary = m\<rparr>"

definition dept_it :: ustr where
  "dept_it = [0x49, 0x54]"

definition dept_hr :: ustr where
  "dept_hr = [0x48, 0x52]"

definition rows_of_year :: "int \<Rightarrow> nat \<Rightarrow> employee list" where
  \<comment> \<open>\<open>n\<close> rows that left in year \<open>y\<close>\<close>
  "rows_of_year y n = replicate n (example_row gender_male 40 dept_it reason_salary y 4 9000)"

definition table_thirds :: "erow list" where
  \<comment> \<open>one man and two women\<close>
  "table_thirds =
     map categorize
       (example_row gender_male 40 dept_it reason_salary 2020 4 9000
        # replicate 2 (example_row gender_female 40 dept_it reason_salary 2020 4 9000))"

definition table_seven_three :: "erow list" where
  \<comment> \<open>seven men and three women, none young, none of short service, one year\<close>
  "table_seven_three =
     map categorize
       (replicate 7 (example_row gender_male 40 dept_it reason_salary 2020 4 9000)
        @ replicate 3 (example_row gender_female 40 dept_hr reason_salary 2020 4 9000))"


definition table_trend_up :: "erow list" where
  \<comment> \<open>the years 2020 to 2024 with 2, 2, 2, 10 and 10 rows\<close>
  "table_trend_up =
     map categorize
       (rows_of_year 2020 2 @ rows_of_year 2021 2 @ rows_of_year 2022 2
        @ rows_of_year 2023 10 @ rows_of_year 2024 10)"

definition table_trend_boundary :: "erow list" where
  \<comment> \<open>the years 2019 to 2024 with 1, 2, 2, 1, 1 and 2 rows\<close>
  "table_trend_boundary =
     map categorize
       (rows_of_year 2019 1 @ rows_of_year 2020 2 @ rows_of_year 2021 2
        @ rows_of_year 2022 1 @ rows_of_year 2023 1 @ rows_of_year 2024 2)"

definition table_two_years :: "erow list" where
  \<comment> \<open>the years 2023 and 2024 with 1 and 20 rows\<close>
  "table_two_years = map categorize (rows_of_year 2023 1 @ rows_of_year 2024 20)"

section \<open>The yearly trend in the words of the specification\<close>

text \<open>
  The specification groups the rows by the year of leaving and compares the mean count of
  the most recent three years with the mean count of all earlier years. These are the
  counts per year, in increasing order of the year, and the mean as a rational number,
  without rounding. The mean of no years has no value; \<open>exact_mean\<close> is used below on
  non-empty lists only.
\<close>

definition year_counts :: "erow list \<Rightarrow> nat list" where
  "year_counts df =
     map (\<lambda>y. length (filter (\<lambda>r. leave_year r = y) df))
       (sorted_list_of_set (leave_year ` set df))"

definition recent_counts :: "erow list \<Rightarrow> nat list" where
  \<comment> \<open>the counts of the most recent three years\<close>
  "recent_counts df = drop (length (year_counts df) - 3) (year_counts df)"

definition earlier_counts :: "erow list \<Rightarrow> nat list" where
  \<comment> \<open>the counts of all earlier years\<close>
  "earlier_counts df = take (length (year_counts df) - 3) (year_counts df)"

definition exact_mean :: "nat list \<Rightarrow> rat" where
  "exact_mean cs = of_nat (sum_list cs) / of_nat (length cs)"

section \<open>Counts and shares\<close>

definition count_where :: "('a \<Rightarrow> bool) \<Rightarrow> 'a list \<Rightarrow> nat" where
  \<comment> \<open>the number of rows that satisfy a condition\<close>
  "count_where P xs = length (filter P xs)"

definition share :: "nat \<Rightarrow> nat \<Rightarrow> rat" where
  \<comment> \<open>\<open>k\<close> rows out of \<open>n\<close> as a percentage, as the program computes it: the quotient is
      rounded, and so is its product with 100\<close>
  "share k n = fl (fl (of_nat k / of_nat n) * 100)"

section \<open>Properties of the rounding\<close>

lemma rhe_of_int: "round_half_even (of_int n) = n"
  by (simp add: round_half_even_def)

lemma rhe_lower: "of_int (round_half_even y) \<ge> y - 1 / 2"
  unfolding round_half_even_def Let_def
  by (auto simp: not_less) linarith+

lemma rhe_upper: "of_int (round_half_even y) \<le> y + 1 / 2"
  unfolding round_half_even_def Let_def
  by (auto simp: not_less) linarith+

lemma rhe_floor: "\<lfloor>y\<rfloor> \<le> round_half_even y" "round_half_even y \<le> \<lfloor>y\<rfloor> + 1"
  by (simp_all add: round_half_even_def Let_def)

lemma rhe_mono: "y \<le> z \<Longrightarrow> round_half_even y \<le> round_half_even z"
proof -
  assume yz: "y \<le> z"
  then have fg: "\<lfloor>y\<rfloor> \<le> \<lfloor>z\<rfloor>" by (rule floor_mono)
  show ?thesis
  proof (cases "\<lfloor>y\<rfloor> = \<lfloor>z\<rfloor>")
    case True
    with yz show ?thesis
      by (auto simp: round_half_even_def Let_def)
  next
    case False
    with fg have "\<lfloor>y\<rfloor> + 1 \<le> \<lfloor>z\<rfloor>" by simp
    with rhe_floor(2) [of y] rhe_floor(1) [of z] show ?thesis by linarith
  qed
qed

lemma pow2_pos: "0 < (2::rat) powi e"
  by (simp add: zero_less_power_int)

lemma pow2_Suc: "(2::rat) powi (e + 1) = 2 * 2 powi e"
  by (simp add: power_int_add)

lemma ilog2_bounds:
  assumes "0 < x"
  shows "2 powi (ilog2 x) \<le> x" and "x < 2 powi (ilog2 x + 1)"
proof -
  obtain p q where pq: "quotient_of x = (p, q)" by (cases "quotient_of x")
  then have q: "0 < q" by (rule quotient_of_denom_pos)
  from pq have x: "x = of_int p / of_int q" by (rule quotient_of_div)
  with assms q have p: "0 < p" by (simp add: zero_less_divide_iff)
  define a where "a = bitlen p"
  define b where "b = bitlen q"
  from p have a1: "1 \<le> a" by (simp add: a_def bitlen_alt_def)
  from q have b1: "1 \<le> b" by (simp add: b_def bitlen_alt_def)
  from bitlen_bounds [OF p] have pb: "2 ^ nat (a - 1) \<le> p" "p < 2 ^ nat a"
    by (simp_all add: a_def)
  from bitlen_bounds [OF q] have qb: "2 ^ nat (b - 1) \<le> q" "q < 2 ^ nat b"
    by (simp_all add: b_def)
  have P1: "(2::rat) powi (a - 1) \<le> of_int p"
  proof -
    have "(of_int (2 ^ nat (a - 1)) :: rat) \<le> of_int p" using pb(1) by (simp only: of_int_le_iff)
    then show ?thesis using a1 by (simp add: power_int_def)
  qed
  have P2: "of_int p < (2::rat) powi a"
  proof -
    have "(of_int p :: rat) < of_int (2 ^ nat a)" using pb(2) by (simp only: of_int_less_iff)
    then show ?thesis using a1 by (simp add: power_int_def)
  qed
  have Q1: "(2::rat) powi (b - 1) \<le> of_int q"
  proof -
    have "(of_int (2 ^ nat (b - 1)) :: rat) \<le> of_int q" using qb(1) by (simp only: of_int_le_iff)
    then show ?thesis using b1 by (simp add: power_int_def)
  qed
  have Q2: "of_int q < (2::rat) powi b"
  proof -
    have "(of_int q :: rat) < of_int (2 ^ nat b)" using qb(2) by (simp only: of_int_less_iff)
    then show ?thesis using b1 by (simp add: power_int_def)
  qed
  have qpos: "(0::rat) < of_int q" using q by simp
  \<comment> \<open>\<open>2 powi (a - b - 1) < x < 2 powi (a - b + 1)\<close>\<close>
  have lo: "2 powi (a - b - 1) < x"
  proof -
    have "(2::rat) powi (a - b - 1) * of_int q < 2 powi (a - b - 1) * 2 powi b"
      using Q2 pow2_pos by (simp add: mult_strict_left_mono)
    also have "\<dots> = 2 powi (a - 1)"
      by (simp add: power_int_add [symmetric])
    also have "\<dots> \<le> of_int p" by (rule P1)
    finally show ?thesis using qpos by (simp add: x pos_less_divide_eq)
  qed
  have hi: "x < 2 powi (a - b + 1)"
  proof -
    have "of_int p < (2::rat) powi a" by (rule P2)
    also have "\<dots> = 2 powi (a - b + 1) * 2 powi (b - 1)"
      by (simp add: power_int_add [symmetric])
    also have "\<dots> \<le> 2 powi (a - b + 1) * of_int q"
      using Q1 pow2_pos [of "a - b + 1"] by (simp add: mult_left_mono)
    finally show ?thesis using qpos by (simp add: x pos_divide_less_eq)
  qed
  have il: "ilog2 x = (if 2 powi (a - b) \<le> x then a - b else a - b - 1)"
    by (simp add: ilog2_def pq a_def b_def)
  show "2 powi (ilog2 x) \<le> x" using lo by (simp add: il)
  show "x < 2 powi (ilog2 x + 1)" using hi by (simp add: il not_le)
qed

lemma pow2_less_cancel: "(2::rat) powi m < 2 powi n \<Longrightarrow> m < n"
proof (rule ccontr)
  assume lt: "(2::rat) powi m < 2 powi n" and "\<not> m < n"
  then have "n \<le> m" by simp
  then have "(2::rat) powi n \<le> 2 powi m" by (rule power_int_increasing) simp
  with lt show False by simp
qed

lemma ilog2_unique:
  assumes "2 powi e \<le> x" "x < 2 powi (e + 1)"
  shows "ilog2 x = e"
proof -
  have x: "0 < x" using assms(1) pow2_pos [of e] by linarith
  note b = ilog2_bounds [OF x]
  have "(2::rat) powi e < 2 powi (ilog2 x + 1)" using assms(1) b(2) by linarith
  then have 1: "e < ilog2 x + 1" by (rule pow2_less_cancel)
  have "(2::rat) powi (ilog2 x) < 2 powi (e + 1)" using assms(2) b(1) by linarith
  then have 2: "ilog2 x < e + 1" by (rule pow2_less_cancel)
  from 1 2 show ?thesis by simp
qed


lemma fl_pos_eq:
  "0 < x \<Longrightarrow>
   fl x = of_int (round_half_even (x / 2 powi (ilog2 x - 52))) * 2 powi (ilog2 x - 52)"
  by (simp add: fl_def Let_def)

lemma fl_neg: "fl (- x) = - fl x"
  by (simp add: fl_def Let_def sgn_minus)

lemma fl_zero: "fl 0 = 0"
  by (simp add: fl_def)

lemma scaled_range:
  assumes "0 < x"
  shows "2 ^ 52 \<le> x / 2 powi (ilog2 x - 52)" and "x / 2 powi (ilog2 x - 52) < 2 ^ 53"
proof -
  let ?u = "(2::rat) powi (ilog2 x - 52)"
  have u: "0 < ?u" by (rule pow2_pos)
  have e1: "2 ^ 52 * ?u = 2 powi (ilog2 x)"
  proof -
    have "(2::rat) powi 52 * 2 powi (ilog2 x - 52) = 2 powi (52 + (ilog2 x - 52))"
      by (rule power_int_add [symmetric]) simp
    then show ?thesis by simp
  qed
  have e2: "2 ^ 53 * ?u = 2 powi (ilog2 x + 1)"
  proof -
    have "(2::rat) powi 53 * 2 powi (ilog2 x - 52) = 2 powi (53 + (ilog2 x - 52))"
      by (rule power_int_add [symmetric]) simp
    then show ?thesis by (simp add: add.commute)
  qed
  from ilog2_bounds(1) [OF assms] e1 have "2 ^ 52 * ?u \<le> x" by simp
  then show "2 ^ 52 \<le> x / ?u" using u by (simp add: pos_le_divide_eq)
  from ilog2_bounds(2) [OF assms] e2 have "x < 2 ^ 53 * ?u" by simp
  then show "x / ?u < 2 ^ 53" using u by (simp add: pos_divide_less_eq)
qed

lemma fl_pos_bounds:
  assumes "0 < x"
  shows "2 powi (ilog2 x) \<le> fl x" and "fl x \<le> 2 powi (ilog2 x + 1)"
proof -
  let ?u = "(2::rat) powi (ilog2 x - 52)"
  let ?m = "round_half_even (x / ?u)"
  have u: "0 < ?u" by (rule pow2_pos)
  have e1: "2 ^ 52 * ?u = 2 powi (ilog2 x)"
  proof -
    have "(2::rat) powi 52 * 2 powi (ilog2 x - 52) = 2 powi (52 + (ilog2 x - 52))"
      by (rule power_int_add [symmetric]) simp
    then show ?thesis by simp
  qed
  have e2: "2 ^ 53 * ?u = 2 powi (ilog2 x + 1)"
  proof -
    have "(2::rat) powi 53 * 2 powi (ilog2 x - 52) = 2 powi (53 + (ilog2 x - 52))"
      by (rule power_int_add [symmetric]) simp
    then show ?thesis by (simp add: add.commute)
  qed
  have "round_half_even (of_int (2 ^ 52)) \<le> ?m"
    using scaled_range(1) [OF assms] by (intro rhe_mono) simp
  then have m1: "2 ^ 52 \<le> ?m" by (simp only: rhe_of_int)
  have "?m \<le> round_half_even (of_int (2 ^ 53))"
    using scaled_range(2) [OF assms] by (intro rhe_mono) simp
  then have m2: "?m \<le> 2 ^ 53" by (simp only: rhe_of_int)
  have "(2 ^ 52 :: rat) \<le> of_int ?m" using m1 by (metis of_int_le_iff of_int_numeral of_int_power)
  then have "2 ^ 52 * ?u \<le> of_int ?m * ?u" using u by (simp add: mult_right_mono)
  then show "2 powi (ilog2 x) \<le> fl x" by (simp only: e1 fl_pos_eq [OF assms])
  have "of_int ?m \<le> (2 ^ 53 :: rat)" using m2 by (metis of_int_le_iff of_int_numeral of_int_power)
  then have "of_int ?m * ?u \<le> 2 ^ 53 * ?u" using u by (simp add: mult_right_mono)
  then show "fl x \<le> 2 powi (ilog2 x + 1)" by (simp only: e2 fl_pos_eq [OF assms])
qed

lemma fl_pos: "0 < x \<Longrightarrow> 0 < fl x"
  using fl_pos_bounds(1) [of x] pow2_pos [of "ilog2 x"] by linarith

lemma fl_mono_pos:
  assumes "0 < x" "x \<le> y"
  shows "fl x \<le> fl y"
proof -
  have y: "0 < y" using assms by linarith
  have "ilog2 x \<le> ilog2 y"
  proof -
    have "(2::rat) powi (ilog2 x) < 2 powi (ilog2 y + 1)"
      using ilog2_bounds(1) [OF assms(1)] ilog2_bounds(2) [OF y] assms(2) by linarith
    then have "ilog2 x < ilog2 y + 1" by (rule pow2_less_cancel)
    then show ?thesis by simp
  qed
  then consider "ilog2 x = ilog2 y" | "ilog2 x + 1 \<le> ilog2 y" by linarith
  then show ?thesis
  proof cases
    case 1
    let ?u = "(2::rat) powi (ilog2 y - 52)"
    have u: "0 < ?u" by (rule pow2_pos)
    have "x / ?u \<le> y / ?u" using assms(2) u by (simp add: divide_right_mono)
    then have "round_half_even (x / ?u) \<le> round_half_even (y / ?u)" by (rule rhe_mono)
    then have "(of_int (round_half_even (x / ?u)) :: rat) \<le> of_int (round_half_even (y / ?u))"
      by (simp only: of_int_le_iff)
    then have "of_int (round_half_even (x / ?u)) * ?u \<le> of_int (round_half_even (y / ?u)) * ?u"
      using u by (simp add: mult_right_mono)
    then show ?thesis by (simp only: fl_pos_eq [OF assms(1)] fl_pos_eq [OF y] 1)
  next
    case 2
    then have "(2::rat) powi (ilog2 x + 1) \<le> 2 powi (ilog2 y)"
      by (rule power_int_increasing) simp
    with fl_pos_bounds(2) [OF assms(1)] fl_pos_bounds(1) [OF y] show ?thesis by linarith
  qed
qed

lemma fl_mono: "x \<le> y \<Longrightarrow> fl x \<le> fl y"
proof -
  assume xy: "x \<le> y"
  consider "0 < x" | "x = 0" | "x < 0" "0 < y" | "x < 0" "y = 0" | "x < 0" "y < 0" using xy by linarith
  then show ?thesis
  proof cases
    case 1 then show ?thesis using xy by (rule fl_mono_pos)
  next
    case 2
    then show ?thesis using xy fl_pos [of y] by (cases "y = 0") (auto simp: fl_zero less_le)
  next
    case 3
    then have "0 < fl y" "0 < fl (- x)" by (simp_all add: fl_pos)
    then show ?thesis by (simp add: fl_neg)
  next
    case 4
    then have "0 < fl (- x)" by (simp add: fl_pos)
    then show ?thesis using 4 by (simp add: fl_neg fl_zero)
  next
    case 5
    then have "fl (- y) \<le> fl (- x)" using xy by (intro fl_mono_pos) simp_all
    then show ?thesis by (simp add: fl_neg)
  qed
qed

lemma fl_error_pos:
  assumes "0 < x"
  shows "\<bar>fl x - x\<bar> \<le> x / 2 ^ 53"
proof -
  let ?u = "(2::rat) powi (ilog2 x - 52)"
  let ?m = "of_int (round_half_even (x / ?u)) :: rat"
  have u: "0 < ?u" by (rule pow2_pos)
  have "\<bar>?m - x / ?u\<bar> \<le> 1 / 2"
    using rhe_lower [of "x / ?u"] rhe_upper [of "x / ?u"] by linarith
  then have "\<bar>?m - x / ?u\<bar> * ?u \<le> 1 / 2 * ?u" using u by (simp add: mult_right_mono)
  moreover have "\<bar>?m - x / ?u\<bar> * ?u = \<bar>?m * ?u - x\<bar>"
  proof -
    have "\<bar>?m - x / ?u\<bar> * ?u = \<bar>(?m - x / ?u) * ?u\<bar>" using u by (simp add: abs_mult)
    also have "(?m - x / ?u) * ?u = ?m * ?u - x" using u by (simp add: field_simps)
    finally show ?thesis .
  qed
  ultimately have 1: "\<bar>fl x - x\<bar> \<le> ?u / 2" by (simp add: fl_pos_eq [OF assms])
  have "2 ^ 52 \<le> x / ?u" by (rule scaled_range(1) [OF assms])
  then have "2 ^ 52 * ?u \<le> x" using u by (simp add: pos_le_divide_eq)
  then have "?u / 2 \<le> x / 2 ^ 53" by simp
  with 1 show ?thesis by linarith
qed

lemma fl_error: "\<bar>fl x - x\<bar> \<le> \<bar>x\<bar> / 2 ^ 53"
proof -
  consider "0 < x" | "x = 0" | "x < 0" by linarith
  then show ?thesis
  proof cases
    case 1 then show ?thesis using fl_error_pos [of x] by simp
  next
    case 2 then show ?thesis by (simp add: fl_zero)
  next
    case 3
    then have "\<bar>fl (- x) - (- x)\<bar> \<le> (- x) / 2 ^ 53" by (intro fl_error_pos) simp
    moreover have "\<bar>fl (- x) - (- x)\<bar> = \<bar>fl x - x\<bar>" by (simp add: fl_neg abs_if)
    ultimately show ?thesis using 3 by simp
  qed
qed

lemma fl_100: "fl 100 = 100" by code_simp
lemma fl_1: "fl 1 = 1" by code_simp

section \<open>Properties of the pandas operations\<close>

lemma f64_of_int_100: "f64_of_int 100 = Fin 100"
  unfolding f64_of_int_def by (simp add: fl_100)

lemma fl_65: "fl 65 = 65" by code_simp
lemma fl_50: "fl 50 = 50" by code_simp
lemma fl_40: "fl 40 = 40" by code_simp
lemma fl_30: "fl 30 = 30" by code_simp

lemma sum_of_bool: "sum_list (map of_bool bs) = (of_nat (length (filter (\<lambda>b. b) bs)) :: rat)"
  by (induction bs) simp_all

lemma pct_Nil: "pct [] = NaN"
  by (simp add: pct_def mean_def)

lemma pct_Fin:
  "bs \<noteq> [] \<Longrightarrow>
   pct bs = Fin (fl (fl (of_nat (length (filter (\<lambda>b. b) bs)) / of_nat (length bs)) * 100))"
  by (simp add: pct_def mean_def sum_of_bool f64_of_int_100)

lemma share_range:
  assumes "k \<le> n" "0 < n"
  shows "0 \<le> fl (fl (of_nat k / of_nat n) * 100)" and "fl (fl (of_nat k / of_nat n) * 100) \<le> 100"
proof -
  let ?q = "of_nat k / of_nat n :: rat"
  have q: "0 \<le> ?q" "?q \<le> 1" using assms by simp_all
  have p0: "0 \<le> fl ?q" using fl_mono [OF q(1)] by (simp add: fl_zero)
  have p1: "fl ?q \<le> 1" using fl_mono [OF q(2)] by (simp add: fl_1)
  have "fl 0 \<le> fl (fl ?q * 100)" using p0 by (intro fl_mono) simp
  then show "0 \<le> fl (fl ?q * 100)" by (simp add: fl_zero)
  have "fl (fl ?q * 100) \<le> fl 100" using p1 by (intro fl_mono) simp
  then show "fl (fl ?q * 100) \<le> 100" by (simp add: fl_100)
qed

lemma count_list_pos: "x \<in> set xs \<Longrightarrow> 0 < count_list xs x"
  using count_list_0_iff [of xs x] by simp

lemma count_list_pos_mem: "0 < count_list xs x \<Longrightarrow> x \<in> set xs"
  using count_list_0_iff [of xs x] by (cases "x \<in> set xs") simp_all

lemma fold_max_ge: "a \<le> fold max ys (a::nat)"
  by (induction ys arbitrary: a) (auto intro: order_trans [OF max.cobounded2])

lemma fold_max_Max: "fold max ys (a::nat) = Max (set (a # ys))"
  by (simp only: Max.set_eq_fold)

lemma top_count:
  assumes "xs \<noteq> []"
  defines "mx \<equiv> fold max (map (count_list xs) xs) 0"
  shows "\<exists>x \<in> set xs. count_list xs x = mx" and "\<And>y. count_list xs y \<le> mx"
proof -
  have M: "mx = Max (insert 0 (count_list xs ` set xs))"
    unfolding mx_def fold_max_Max by simp
  have fin: "finite (insert 0 (count_list xs ` set xs))" by simp
  have "mx \<in> insert 0 (count_list xs ` set xs)" unfolding M by (rule Max_in) simp_all
  moreover have "0 < mx"
  proof -
    obtain x where x: "x \<in> set xs" using assms(1) by (cases xs) auto
    then have "0 < count_list xs x" by (rule count_list_pos)
    moreover have "count_list xs x \<le> mx" unfolding M using x by (intro Max_ge) simp_all
    ultimately show ?thesis by linarith
  qed
  ultimately show "\<exists>x \<in> set xs. count_list xs x = mx" by auto
  fix y
  show "count_list xs y \<le> mx"
  proof (cases "y \<in> set xs")
    case True
    then show ?thesis unfolding M by (intro Max_ge) simp_all
  next
    case False
    then show ?thesis by (simp add: count_list_0_iff)
  qed
qed

lemma set_unique: "set (unique xs) = set xs"
  by (simp add: unique_def)

lemma distinct_unique: "distinct (unique xs)"
  by (simp add: unique_def)

lemma sorted_hd_least: "sorted ys \<Longrightarrow> y \<in> set ys \<Longrightarrow> hd ys \<le> y"
  by (cases ys) auto

lemma iloc0_hd: "ys \<noteq> [] \<Longrightarrow> iloc0 ys = Inr (hd ys)"
  by (cases ys) (simp_all add: iloc0_def)

lemma mode_first:
  assumes "xs \<noteq> []"
  shows "\<exists>m. iloc0 (mode xs) = Inr m \<and> m \<in> set xs
           \<and> (\<forall>y. count_list xs y \<le> count_list xs m)
           \<and> (\<forall>y. count_list xs y = count_list xs m \<longrightarrow> m \<le> y)"
proof -
  define mx where "mx = fold max (map (count_list xs) xs) 0"
  define cands where "cands = filter (\<lambda>v. count_list xs v = mx) (unique xs)"
  have mode: "mode xs = sort cands" by (simp add: mode_def mx_def cands_def)
  from top_count [OF assms] obtain x where x: "x \<in> set xs" "count_list xs x = mx"
    and le: "\<And>y. count_list xs y \<le> mx" unfolding mx_def by blast
  have set_c: "set cands = {v \<in> set xs. count_list xs v = mx}"
    by (auto simp: cands_def set_unique)
  have ne: "sort cands \<noteq> []" using x set_c by (metis (mono_tags, lifting) empty_iff mem_Collect_eq set_empty set_sort)
  let ?m = "hd (sort cands)"
  have m_in: "?m \<in> set cands" using ne by (metis hd_in_set set_sort)
  have m: "?m \<in> set xs" "count_list xs ?m = mx" using m_in set_c by auto
  have least: "m' \<in> set cands \<Longrightarrow> ?m \<le> m'" for m'
    by (rule sorted_hd_least) simp_all
  have "\<forall>y. count_list xs y = count_list xs ?m \<longrightarrow> ?m \<le> y"
  proof (intro allI impI)
    fix y assume "count_list xs y = count_list xs ?m"
    then have c: "count_list xs y = mx" using m(2) by simp
    have "0 < mx" using x count_list_pos [of x xs] by simp
    then have "y \<in> set xs" using c by (intro count_list_pos_mem) simp
    then have "y \<in> set cands" using c set_c by simp
    then show "?m \<le> y" by (rule least)
  qed
  then show ?thesis using m le iloc0_hd [OF ne] mode by auto
qed

lemma value_counts_first:
  assumes "xs \<noteq> []"
  shows "\<exists>d. iloc0 (map fst (value_counts xs)) = Inr d \<and> d \<in> set xs
           \<and> (\<forall>y. count_list xs y \<le> count_list xs d)"
proof -
  define ps where "ps = map (\<lambda>v. (v, count_list xs v)) (unique xs)"
  define f where "f = (\<lambda>(v::'a, c::nat). - int c)"
  have vc: "value_counts xs = sort_key f ps" by (simp add: value_counts_def ps_def f_def)
  have ne: "sort_key f ps \<noteq> []"
    using assms by (metis length_0_conv length_map length_sort ps_def set_empty set_unique)
  let ?h = "hd (sort_key f ps)"
  have h_in: "?h \<in> set ps" using ne by (metis hd_in_set set_sort)
  then obtain d where d: "?h = (d, count_list xs d)" "d \<in> set xs"
    by (auto simp: ps_def set_unique)
  have least: "f ?h \<le> f p" if "p \<in> set ps" for p
  proof -
    have "sorted (map f (sort_key f ps))" by (rule sorted_sort_key)
    moreover have "f p \<in> set (map f (sort_key f ps))" using that by simp
    ultimately have "hd (map f (sort_key f ps)) \<le> f p" by (rule sorted_hd_least)
    then show ?thesis using ne by (simp add: hd_map)
  qed
  have "\<forall>y. count_list xs y \<le> count_list xs d"
  proof
    fix y
    show "count_list xs y \<le> count_list xs d"
    proof (cases "y \<in> set xs")
      case True
      then have "(y, count_list xs y) \<in> set ps" by (auto simp: ps_def set_unique)
      from least [OF this] have "f (d, count_list xs d) \<le> f (y, count_list xs y)"
        by (simp only: d(1))
      then show ?thesis by (simp add: f_def)
    next
      case False
      then show ?thesis by (simp add: count_list_0_iff)
    qed
  qed
  moreover have "iloc0 (map fst (value_counts xs)) = Inr d"
    using ne by (simp add: vc iloc0_hd hd_map d(1))
  ultimately show ?thesis using d(2) by blast
qed

section \<open>The label columns\<close>

lemma process_data_table:
  "processed_data (snd (process_data self df)) = Some (map categorize df)"
  by (simp add: process_data_def generate_insights_def Let_def split: sum.splits)

lemma cut_5:
  fixes x :: "'a::linorder"
  assumes "b0 < b1" "b1 < b2" "b2 < b3" "b3 < b4" "b4 < b5"
  shows "cut [b0, b1, b2, b3, b4, b5] [l0, l1, l2, l3, l4] x =
     (if b0 < x \<and> x \<le> b1 then Some l0
      else if b1 < x \<and> x \<le> b2 then Some l1
      else if b2 < x \<and> x \<le> b3 then Some l2
      else if b3 < x \<and> x \<le> b4 then Some l3
      else if b4 < x \<and> x \<le> b5 then Some l4
      else None)"
  using assms by (auto simp: cut_def searchsorted_left_def)

text \<open>
  Claim C1, as the code has it. \<open>process_data\<close> stores the table with the three labels of
  \<open>categorize\<close> on every row, and each label is assigned by intervals that are open on the
  left and closed on the right: a value equal to an interior boundary belongs to the lower
  band. An age of exactly 25 gets the label "less than 25", a service of exactly 1, 3, 5 or
  10 years and a salary of exactly 5000, 8000, 12000 or 20000 the band that ends there.
  A value that is not above 0, or that is above the last edge (100, 100, 100000), gets no
  label.
\<close>

theorem c1_bands:
  "processed_data (snd (process_data self df)) = Some (map categorize df)
   \<and> age_group (categorize r) =
       (if 0 < age r \<and> age r \<le> 25 then Some age_lt_25
        else if 25 < age r \<and> age r \<le> 35 then Some age_25_35
        else if 35 < age r \<and> age r \<le> 45 then Some age_35_45
        else if 45 < age r \<and> age r \<le> 55 then Some age_45_55
        else if 55 < age r \<and> age r \<le> 100 then Some age_gt_55
        else None)
   \<and> service_group (categorize r) =
       (if 0 < service_years r \<and> service_years r \<le> 1 then Some service_lt_1
        else if 1 < service_years r \<and> service_years r \<le> 3 then Some service_1_3
        else if 3 < service_years r \<and> service_years r \<le> 5 then Some service_3_5
        else if 5 < service_years r \<and> service_years r \<le> 10 then Some service_5_10
        else if 10 < service_years r \<and> service_years r \<le> 100 then Some service_gt_10
        else None)
   \<and> salary_group (categorize r) =
       (if 0 < monthly_salary r \<and> monthly_salary r \<le> 5000 then Some salary_lt_5000
        else if 5000 < monthly_salary r \<and> monthly_salary r \<le> 8000 then Some salary_5000_8000
        else if 8000 < monthly_salary r \<and> monthly_salary r \<le> 12000 then Some salary_8000_12000
        else if 12000 < monthly_salary r \<and> monthly_salary r \<le> 20000
        then Some salary_12000_20000
        else if 20000 < monthly_salary r \<and> monthly_salary r \<le> 100000
        then Some salary_gt_20000
        else None)"
proof -
  have a: "age_group (categorize r) =
      cut [0, 25, 35, 45, 55, 100] [age_lt_25, age_25_35, age_35_45, age_45_55, age_gt_55] (age r)"
    by (simp add: categorize_def employee.defs)
  have b: "service_group (categorize r) =
      cut [0, 1, 3, 5, 10, 100]
        [service_lt_1, service_1_3, service_3_5, service_5_10, service_gt_10] (service_years r)"
    by (simp add: categorize_def employee.defs)
  have c: "salary_group (categorize r) =
      cut [0, 5000, 8000, 12000, 20000, 100000]
        [salary_lt_5000, salary_5000_8000, salary_8000_12000, salary_12000_20000,
         salary_gt_20000] (monthly_salary r)"
    by (simp add: categorize_def employee.defs)
  show ?thesis
    unfolding a b c by (simp only: process_data_table cut_5 simp_thms)
qed

text \<open>
  A row inside the ranges of the sample data, away from every boundary: the three labels
  are the bands that contain the values.
\<close>

theorem c1_bands_witness:
  "age_group (categorize (example_row gender_male 26 dept_it reason_salary 2020 (1 / 2) 25000))
     = Some age_25_35
   \<and> service_group
       (categorize (example_row gender_male 26 dept_it reason_salary 2020 (1 / 2) 25000))
     = Some service_lt_1
   \<and> salary_group
       (categorize (example_row gender_male 26 dept_it reason_salary 2020 (1 / 2) 25000))
     = Some salary_gt_20000"
  using c1_bands [of init "[]" "example_row gender_male 26 dept_it reason_salary 2020 (1 / 2) 25000"]
  by (simp add: example_row_def)

text \<open>
  Claim C1 as it is written asks for intervals open on the right, with an age of exactly 25
  in the band 25-35. The row below has age 25, one year of service and a salary of 5000:
  each of the three labels is the lower band, not the upper one.
\<close>

theorem c1_counterexample:
  "age_group (categorize (example_row gender_male 25 dept_it reason_salary 2020 1 5000))
     = Some age_lt_25
   \<and> age_lt_25 \<noteq> age_25_35
   \<and> service_group (categorize (example_row gender_male 25 dept_it reason_salary 2020 1 5000))
     = Some service_lt_1
   \<and> service_lt_1 \<noteq> service_1_3
   \<and> salary_group (categorize (example_row gender_male 25 dept_it reason_salary 2020 1 5000))
     = Some salary_lt_5000
   \<and> salary_lt_5000 \<noteq> salary_5000_8000"
  by (simp add: categorize_def example_row_def cut_def searchsorted_left_def employee.defs
      age_lt_25_def age_25_35_def service_lt_1_def service_1_3_def salary_lt_5000_def
      salary_5000_8000_def)

section \<open>The empty table\<close>

text \<open>
  Claim C2 asks that no insight rule raises and that an empty table gives an empty list of
  insights. The code returns early only when no table has been processed. On a table with
  no rows the guard is passed, the percentages of the gender block are NaN, and the first
  element of the empty list of modes does not exist: \<open>generate_insights\<close> raises
  IndexError, and so does \<open>process_data\<close>, which calls it.
\<close>

theorem c2_empty_table_raises:
  "generate_insights (self\<lparr>processed_data := Some []\<rparr>) = Inl IndexError
   \<and> fst (process_data self []) = Inl IndexError"
  by (simp add: generate_insights_def process_data_def top_reason_insights_def mode_def
      unique_def iloc0_def)

lemma f64_of_int_0: "f64_of_int 0 = Fin 0"
  by (simp add: f64_of_int_def fl_zero)

text \<open>
  Claim C6. On a table with no rows \<open>get_summary_stats\<close> returns a dictionary and raises
  nothing: the total is 0, the two counts are 0, and the two percentages are the 0 of the
  guard \<open>if total > 0 else 0\<close>. The three means are NaN and the range of years reads
  \<open>nan - nan\<close>.
\<close>

theorem c6_empty_summary:
  "get_summary_stats (self\<lparr>processed_data := Some []\<rparr>) =
     Some \<lparr>total_rows = 0, male_count = 0, female_count = 0, male_pct = Fin 0,
           female_pct = Fin 0, avg_age = NaN, avg_service = NaN, avg_salary = NaN,
           years_range = [0x6E, 0x61, 0x6E, 0x20, 0x2D, 0x20, 0x6E, 0x61, 0x6E],
           unique_reasons = 0, unique_departments = 0\<rparr>"
  by (simp add: get_summary_stats_def f64_of_int_0 mean_def str_num_def col_min_def col_max_def
      nunique_def)

text \<open>The same on the object that \<open>process_data\<close> leaves behind when it is given no rows.\<close>

theorem c6_empty_summary_witness:
  "map_option total_rows (get_summary_stats (snd (process_data init []))) = Some 0
   \<and> map_option male_pct (get_summary_stats (snd (process_data init []))) = Some (Fin 0)
   \<and> map_option female_pct (get_summary_stats (snd (process_data init []))) = Some (Fin 0)"
proof -
  have "snd (process_data init []) = init\<lparr>data := Some [], processed_data := Some []\<rparr>"
    by (simp add: process_data_def generate_insights_def top_reason_insights_def mode_def
        unique_def iloc0_def)
  then show ?thesis
    using c6_empty_summary [of "init\<lparr>data := Some []\<rparr>"] by simp
qed

section \<open>The percentages of the summary\<close>

lemma gender_values_differ: "gender_male \<noteq> gender_female"
  by (simp add: gender_male_def gender_female_def)

lemma two_valued_count:
  assumes "\<forall>r \<in> set df. gender r = gender_male \<or> gender r = gender_female"
  shows "length (filter (\<lambda>r. gender r = gender_male) df)
         + length (filter (\<lambda>r. gender r = gender_female) df) = length df"
  using assms gender_values_differ by (induction df) auto

lemma share_error:
  assumes "k \<le> n" "0 < n"
  shows "\<bar>fl (fl (of_nat k / of_nat n) * 100) - 100 * (of_nat k / of_nat n)\<bar> \<le> 200 / 2 ^ 53"
proof -
  let ?q = "of_nat k / of_nat n :: rat"
  have q: "0 \<le> ?q" "?q \<le> 1" using assms by simp_all
  have p0: "0 \<le> fl ?q" using fl_mono [OF q(1)] by (simp add: fl_zero)
  have p1: "fl ?q \<le> 1" using fl_mono [OF q(2)] by (simp add: fl_1)
  have e1: "\<bar>fl ?q - ?q\<bar> \<le> 1 / 2 ^ 53"
  proof -
    have "\<bar>fl ?q - ?q\<bar> \<le> \<bar>?q\<bar> / 2 ^ 53" by (rule fl_error)
    also have "\<dots> \<le> 1 / 2 ^ 53" using q by (simp add: divide_right_mono)
    finally show ?thesis .
  qed
  have e2: "\<bar>fl (fl ?q * 100) - fl ?q * 100\<bar> \<le> 100 / 2 ^ 53"
  proof -
    have "\<bar>fl (fl ?q * 100) - fl ?q * 100\<bar> \<le> \<bar>fl ?q * 100\<bar> / 2 ^ 53" by (rule fl_error)
    also have "\<dots> \<le> 100 / 2 ^ 53" using p0 p1 by (simp add: divide_right_mono)
    finally show ?thesis .
  qed
  from e1 e2 show ?thesis by linarith
qed

text \<open>
  Claim C8, as the code has it. When the gender column holds only the two values,
  \<open>get_summary_stats\<close> returns the number of rows, the number of male rows and the number
  of female rows, and the two percentages are numbers between 0 and 100. On a table with no
  rows both are 0. On a table with rows the male percentage is the double
  \<open>share male_count total\<close>, that is \<open>fl (fl (male_count / total) * 100)\<close>, the female
  percentage is \<open>share female_count total\<close>, and their sum is 100 up to the rounding of
  the four operations: it differs from 100 by at most \<open>1 / 2 ^ 44\<close>.
\<close>

theorem c8_gender_percentages:
  assumes "processed_data self = Some df"
    and "\<forall>r \<in> set df. gender r = gender_male \<or> gender r = gender_female"
  shows "\<exists>st a b. get_summary_stats self = Some st \<and> male_pct st = Fin a \<and> female_pct st = Fin b
           \<and> total_rows st = length df
           \<and> male_count st = count_where (\<lambda>r. gender r = gender_male) df
           \<and> female_count st = count_where (\<lambda>r. gender r = gender_female) df
           \<and> 0 \<le> a \<and> a \<le> 100 \<and> 0 \<le> b \<and> b \<le> 100
           \<and> (if df = [] then a = 0 \<and> b = 0
               else a = share (count_where (\<lambda>r. gender r = gender_male) df) (length df)
                  \<and> b = share (count_where (\<lambda>r. gender r = gender_female) df) (length df)
                  \<and> \<bar>a + b - 100\<bar> \<le> 1 / 2 ^ 44)"
proof (cases "df = []")
  case True
  then show ?thesis using assms(1)
    by (simp add: get_summary_stats_def f64_of_int_0 count_where_def)
next
  case False
  define n where "n = length df"
  define k where "k = length (filter (\<lambda>r. gender r = gender_male) df)"
  define k' where "k' = length (filter (\<lambda>r. gender r = gender_female) df)"
  define a where "a = fl (fl (of_nat k / of_nat n) * 100)"
  define b where "b = fl (fl (of_nat k' / of_nat n) * 100)"
  have n: "0 < n" using False by (simp add: n_def)
  have kn: "k + k' = n" unfolding k_def k'_def n_def by (rule two_valued_count [OF assms(2)])
  then have le: "k \<le> n" "k' \<le> n" by simp_all
  have st: "get_summary_stats self
      = Some \<lparr>total_rows = n, male_count = k, female_count = k', male_pct = Fin a,
              female_pct = Fin b, avg_age = mean (map (\<lambda>r. of_int (age r)) df),
              avg_service = mean (map service_years df),
              avg_salary = mean (map monthly_salary df),
              years_range = str_num (col_min (map leave_year df)) @ [0x20, 0x2D, 0x20]
                 @ str_num (col_max (map leave_year df)),
              unique_reasons = nunique (map reason df),
              unique_departments = nunique (map department df)\<rparr>"
    using assms(1) False
    by (simp add: get_summary_stats_def Let_def f64_of_int_100 n_def k_def k'_def a_def b_def)
  have ra: "0 \<le> a" "a \<le> 100" unfolding a_def using share_range [OF le(1) n] by simp_all
  have rb: "0 \<le> b" "b \<le> 100" unfolding b_def using share_range [OF le(2) n] by simp_all
  have "of_nat k / of_nat n + of_nat k' / of_nat n = (1::rat)"
  proof -
    have "(of_nat k + of_nat k' :: rat) = of_nat n" using kn by (metis of_nat_add)
    then show ?thesis using n by (simp add: add_divide_distrib [symmetric])
  qed
  then have "\<bar>a + b - 100\<bar> \<le> 400 / 2 ^ 53"
    using share_error [OF le(1) n] share_error [OF le(2) n] unfolding a_def b_def by linarith
  also have "\<dots> \<le> (1::rat) / 2 ^ 44" by simp
  finally have "\<bar>a + b - 100\<bar> \<le> 1 / 2 ^ 44" .
  moreover have "a = share (count_where (\<lambda>r. gender r = gender_male) df) (length df)"
    "b = share (count_where (\<lambda>r. gender r = gender_female) df) (length df)"
    "k = count_where (\<lambda>r. gender r = gender_male) df"
    "k' = count_where (\<lambda>r. gender r = gender_female) df"
    by (simp_all add: a_def b_def share_def count_where_def k_def k'_def n_def)
  ultimately show ?thesis using st ra rb False n_def by simp
qed

lemma summary_pcts:
  assumes "df \<noteq> []"
  shows "map_option male_pct (get_summary_stats (self\<lparr>processed_data := Some df\<rparr>))
           = Some (Fin (fl (fl (of_nat (length (filter (\<lambda>r. gender r = gender_male) df))
                                 / of_nat (length df)) * 100)))"
    and "map_option female_pct (get_summary_stats (self\<lparr>processed_data := Some df\<rparr>))
           = Some (Fin (fl (fl (of_nat (length (filter (\<lambda>r. gender r = gender_female) df))
                                 / of_nat (length df)) * 100)))"
  using assms by (simp_all add: get_summary_stats_def Let_def f64_of_int_100)

lemma table_thirds_counts:
  "table_thirds \<noteq> []"
  "length table_thirds = 3"
  "length (filter (\<lambda>r. gender r = gender_male) table_thirds) = 1"
  "length (filter (\<lambda>r. gender r = gender_female) table_thirds) = 2"
  by (simp_all add: table_thirds_def categorize_def example_row_def employee.defs
      gender_male_def gender_female_def numeral_2_eq_2)

lemma fl_one_third: "fl (1 / 3) = 6004799503160661 / 18014398509481984"
  by code_simp

lemma fl_two_thirds: "fl (2 / 3) = 6004799503160661 / 9007199254740992"
  by code_simp

lemma pct_one_third:
  "fl (6004799503160661 / 18014398509481984 * 100) = 2345624805922133 / 70368744177664"
  by code_simp

lemma pct_two_thirds:
  "fl (6004799503160661 / 9007199254740992 * 100) = 2345624805922133 / 35184372088832"
  by code_simp

text \<open>
  Claim C8 as it is written asks for a sum of exactly 100 on every table with two-valued
  gender. On the table with no rows the sum is 0. On the table of one man and two women
  the two doubles are 33.3333333333333285963817615993320941925048828125 and twice that,
  and their sum is below 100.
\<close>

theorem c8_counterexample:
  "map_option male_pct (get_summary_stats (init\<lparr>processed_data := Some []\<rparr>)) = Some (Fin 0)
   \<and> map_option female_pct (get_summary_stats (init\<lparr>processed_data := Some []\<rparr>))
       = Some (Fin 0)
   \<and> map_option male_pct (get_summary_stats (init\<lparr>processed_data := Some table_thirds\<rparr>))
       = Some (Fin (2345624805922133 / 70368744177664))
   \<and> map_option female_pct (get_summary_stats (init\<lparr>processed_data := Some table_thirds\<rparr>))
       = Some (Fin (2345624805922133 / 35184372088832))
   \<and> (2345624805922133 / 70368744177664 + 2345624805922133 / 35184372088832 :: rat) < 100"
proof -
  have "map_option male_pct (get_summary_stats (init\<lparr>processed_data := Some []\<rparr>))
      = Some (Fin 0)"
    by (simp add: get_summary_stats_def f64_of_int_0)
  moreover have "map_option female_pct (get_summary_stats (init\<lparr>processed_data := Some []\<rparr>))
      = Some (Fin 0)"
    by (simp add: get_summary_stats_def f64_of_int_0)
  moreover have "map_option male_pct
        (get_summary_stats (init\<lparr>processed_data := Some table_thirds\<rparr>))
      = Some (Fin (2345624805922133 / 70368744177664))"
    by (simp only: summary_pcts(1) [OF table_thirds_counts(1)] table_thirds_counts
        of_nat_numeral of_nat_1 fl_one_third pct_one_third)
  moreover have "map_option female_pct
        (get_summary_stats (init\<lparr>processed_data := Some table_thirds\<rparr>))
      = Some (Fin (2345624805922133 / 35184372088832))"
    by (simp only: summary_pcts(2) [OF table_thirds_counts(1)] table_thirds_counts
        of_nat_numeral fl_two_thirds pct_two_thirds)
  moreover have "(2345624805922133 / 70368744177664 + 2345624805922133 / 35184372088832 :: rat)
      < 100"
    by simp
  ultimately show ?thesis by (intro conjI)
qed

text \<open>
  The table of one man and two women satisfies the hypotheses: three rows, the male
  percentage is the double \<open>share 1 3\<close>, the female percentage the double \<open>share 2 3\<close>,
  both between 0 and 100, and their sum within \<open>1 / 2 ^ 44\<close> of 100.
\<close>

theorem c8_gender_percentages_witness:
  "map_option total_rows (get_summary_stats (init\<lparr>processed_data := Some table_thirds\<rparr>))
     = Some 3
   \<and> map_option male_pct (get_summary_stats (init\<lparr>processed_data := Some table_thirds\<rparr>))
     = Some (Fin (share 1 3))
   \<and> map_option female_pct (get_summary_stats (init\<lparr>processed_data := Some table_thirds\<rparr>))
     = Some (Fin (share 2 3))
   \<and> 0 \<le> share 1 3 \<and> share 1 3 \<le> 100 \<and> 0 \<le> share 2 3 \<and> share 2 3 \<le> 100
   \<and> \<bar>share 1 3 + share 2 3 - 100\<bar> \<le> 1 / 2 ^ 44"
proof -
  have g: "\<forall>r \<in> set table_thirds. gender r = gender_male \<or> gender r = gender_female"
    by (simp add: table_thirds_def categorize_def example_row_def employee.defs)
  have p: "processed_data (init\<lparr>processed_data := Some table_thirds\<rparr>) = Some table_thirds"
    by simp
  have c: "count_where (\<lambda>r. gender r = gender_male) table_thirds = 1"
    "count_where (\<lambda>r. gender r = gender_female) table_thirds = 2"
    by (simp_all add: count_where_def table_thirds_counts)
  from c8_gender_percentages [OF p g] obtain st a b
    where st: "get_summary_stats (init\<lparr>processed_data := Some table_thirds\<rparr>) = Some st"
      and f: "male_pct st = Fin a" "female_pct st = Fin b" "total_rows st = length table_thirds"
      and r: "0 \<le> a" "a \<le> 100" "0 \<le> b" "b \<le> 100"
      and e: "if table_thirds = [] then a = 0 \<and> b = 0
              else a = share (count_where (\<lambda>r. gender r = gender_male) table_thirds)
                         (length table_thirds)
                 \<and> b = share (count_where (\<lambda>r. gender r = gender_female) table_thirds)
                         (length table_thirds)
                 \<and> \<bar>a + b - 100\<bar> \<le> 1 / 2 ^ 44"
    by blast
  note e [unfolded if_not_P [OF table_thirds_counts(1)] c table_thirds_counts(2)]
  then have a: "a = share 1 3" and b: "b = share 2 3" and d: "\<bar>a + b - 100\<bar> \<le> 1 / 2 ^ 44"
    by blast+
  from d have d': "\<bar>share 1 3 + share 2 3 - 100\<bar> \<le> 1 / 2 ^ 44" unfolding a b .
  from st f r d' show ?thesis unfolding a b by (simp add: table_thirds_counts)
qed

section \<open>The thresholds on shares, exactly\<close>

lemma share_le_threshold:
  assumes "0 < n" "100 * k \<le> t * n" "fl (fl (of_nat t / 100) * 100) = of_nat t"
  shows "share k n \<le> of_nat t"
proof -
  have "(of_nat k / of_nat n :: rat) \<le> of_nat t / 100"
  proof -
    have "(of_nat (100 * k) :: rat) \<le> of_nat (t * n)" using assms(2) by (simp only: of_nat_le_iff)
    then show ?thesis using assms(1) by (simp add: field_simps)
  qed
  then have "fl (of_nat k / of_nat n) \<le> fl (of_nat t / 100)" by (rule fl_mono)
  then have "fl (of_nat k / of_nat n) * 100 \<le> fl (of_nat t / 100) * 100" by simp
  then have "fl (fl (of_nat k / of_nat n) * 100) \<le> fl (fl (of_nat t / 100) * 100)"
    by (rule fl_mono)
  then show ?thesis by (simp add: share_def assms(3))
qed

lemma share_gt_threshold:
  assumes "0 < n" "k \<le> n" "n \<le> 2 ^ 45" "t * n < 100 * k"
  shows "of_nat t < share k n"
proof -
  have n: "(0::rat) < of_nat n" using assms(1) by simp
  have "t * n + 1 \<le> 100 * k" using assms(4) by simp
  then have "(of_nat (t * n + 1) :: rat) \<le> of_nat (100 * k)" by (simp only: of_nat_le_iff)
  then have "(of_nat t * of_nat n + 1 :: rat) \<le> 100 * of_nat k" by simp
  then have "(of_nat t * of_nat n + 1) / of_nat n \<le> (100 * of_nat k :: rat) / of_nat n"
    using n by (simp only: divide_right_mono less_imp_le)
  then have gap: "(of_nat t :: rat) + 1 / of_nat n \<le> 100 * (of_nat k / of_nat n)"
    using n by (simp add: add_divide_distrib)
  have "(of_nat n :: rat) \<le> 2 ^ 45"
  proof -
    have "(of_nat n :: rat) \<le> of_nat (2 ^ 45)" using assms(3) by (simp only: of_nat_le_iff)
    then show ?thesis by simp
  qed
  then have "1 / (2 ^ 45 :: rat) \<le> 1 / of_nat n" using n by (simp add: frac_le)
  moreover have "(200 :: rat) / 2 ^ 53 < 1 / 2 ^ 45" by simp
  ultimately have small: "(200 :: rat) / 2 ^ 53 < 1 / of_nat n" by linarith
  from share_error [OF assms(2) assms(1)]
  have "100 * (of_nat k / of_nat n) - 200 / 2 ^ 53 \<le> share k n"
    unfolding share_def by linarith
  with gap small show ?thesis by linarith
qed

lemma threshold_values:
  "fl (fl (of_nat 65 / 100) * 100) = of_nat 65"
  "fl (fl (of_nat 50 / 100) * 100) = of_nat 50"
  "fl (fl (of_nat 40 / 100) * 100) = of_nat 40"
  "fl (fl (of_nat 30 / 100) * 100) = of_nat 30"
  by code_simp+

lemma share_exact:
  assumes "0 < n" "k \<le> n" "n \<le> 2 ^ 45"
  shows "65 < share k n \<longleftrightarrow> 65 * n < 100 * k"
    and "50 < share k n \<longleftrightarrow> 50 * n < 100 * k"
    and "40 < share k n \<longleftrightarrow> 40 * n < 100 * k"
    and "30 < share k n \<longleftrightarrow> 30 * n < 100 * k"
proof -
  have *: "of_nat t < share k n \<longleftrightarrow> t * n < 100 * k"
    if "fl (fl (of_nat t / 100) * 100) = of_nat t" for t
  proof
    assume a: "of_nat t < share k n"
    show "t * n < 100 * k"
    proof (rule ccontr)
      assume "\<not> t * n < 100 * k"
      then have "100 * k \<le> t * n" by simp
      from share_le_threshold [OF assms(1) this that] a show False by simp
    qed
  next
    assume "t * n < 100 * k"
    then show "of_nat t < share k n" by (rule share_gt_threshold [OF assms])
  qed
  show "65 < share k n \<longleftrightarrow> 65 * n < 100 * k" using * [OF threshold_values(1)] by simp
  show "50 < share k n \<longleftrightarrow> 50 * n < 100 * k" using * [OF threshold_values(2)] by simp
  show "40 < share k n \<longleftrightarrow> 40 * n < 100 * k" using * [OF threshold_values(3)] by simp
  show "30 < share k n \<longleftrightarrow> 30 * n < 100 * k" using * [OF threshold_values(4)] by simp
qed

section \<open>The yearly trend\<close>

lemma count_list_map_filter:
  "count_list (map f xs) y = length (filter (\<lambda>r. f r = y) xs)"
  by (induction xs) simp_all

lemma groupby_year_counts: "map snd (groupby_size (map leave_year df)) = year_counts df"
proof -
  have "sorted_list_of_set (leave_year ` set df) = sort (remdups (map leave_year df))"
    using sorted_list_of_set_sort_remdups [of "map leave_year df"] by simp
  then show ?thesis
    by (simp add: groupby_size_def year_counts_def comp_def count_list_map_filter)
qed

lemma sum_list_of_nat: "sum_list (map of_nat cs) = (of_nat (sum_list cs) :: rat)"
  by (induction cs) simp_all

lemma mean_counts:
  "mean (map of_nat cs) = (if cs = [] then NaN else Fin (fl (exact_mean cs)))"
  by (simp add: mean_def exact_mean_def sum_list_of_nat)

lemma exact_mean_nonneg: "0 \<le> exact_mean cs"
  by (simp add: exact_mean_def)

lemma fl_nonneg: "0 \<le> x \<Longrightarrow> 0 \<le> fl x"
  using fl_mono [of 0 x] by (simp add: fl_zero)

lemma trend_thresholds_ordered:
  "fl (fl (exact_mean cs) * fl (8 / 10)) \<le> fl (fl (exact_mean cs) * fl (12 / 10))"
proof -
  have "fl (8 / 10) \<le> fl (12 / 10)" by (rule fl_mono) simp
  moreover have "0 \<le> fl (exact_mean cs)" by (rule fl_nonneg [OF exact_mean_nonneg])
  ultimately have "fl (exact_mean cs) * fl (8 / 10) \<le> fl (exact_mean cs) * fl (12 / 10)"
    by (rule mult_left_mono)
  then show ?thesis by (rule fl_mono)
qed

lemma yearly_trend_eq:
  "yearly_trend_insights df =
     (if length (year_counts df) < 4 then []
      else if fl (fl (exact_mean (earlier_counts df)) * fl (12 / 10))
              < fl (exact_mean (recent_counts df))
      then [msg_trend_up]
      else if fl (exact_mean (recent_counts df))
              < fl (fl (exact_mean (earlier_counts df)) * fl (8 / 10))
      then [msg_trend_down]
      else [])"
proof -
  let ?cs = "year_counts df"
  consider "length ?cs \<le> 1" | "length ?cs = 2 \<or> length ?cs = 3" | "4 \<le> length ?cs"
    by linarith
  then show ?thesis
  proof cases
    case 1
    then show ?thesis
      by (simp add: yearly_trend_insights_def groupby_year_counts)
  next
    case 2
    then have "iloc_to_end 3 ?cs = []" by (auto simp: iloc_to_end_def)
    with 2 show ?thesis
      by (auto simp: yearly_trend_insights_def groupby_year_counts Let_def mean_def)
  next
    case 3
    then have a: "iloc_to_end 3 ?cs \<noteq> []" "iloc_from_end 3 ?cs \<noteq> []"
      by (auto simp: iloc_to_end_def iloc_from_end_def)
    have b: "iloc_to_end 3 ?cs = earlier_counts df" "iloc_from_end 3 ?cs = recent_counts df"
      by (simp_all add: iloc_to_end_def iloc_from_end_def earlier_counts_def recent_counts_def)
    from 3 a show ?thesis
      unfolding yearly_trend_insights_def groupby_year_counts Let_def mean_counts f64_lit_def
      by (simp add: b)
  qed
qed


lemma categorize_fields:
  "gender (categorize r) = gender r"
  "age (categorize r) = age r"
  "department (categorize r) = department r"
  "reason (categorize r) = reason r"
  "leave_year (categorize r) = leave_year r"
  "service_years (categorize r) = service_years r"
  "monthly_salary (categorize r) = monthly_salary r"
  by (simp_all add: categorize_def employee.defs)

lemma years_rows_of_year: "map leave_year (map categorize (rows_of_year y n)) = replicate n y"
  by (simp add: rows_of_year_def example_row_def comp_def categorize_fields)

lemma year_counts_groupby: "year_counts df = map snd (groupby_size (map leave_year df))"
  by (simp add: groupby_year_counts)

lemma groupby_trend_up:
  "map snd (groupby_size (replicate 2 2020 @ replicate 2 2021 @ replicate 2 2022
      @ replicate 10 2023 @ replicate 10 (2024::int))) = [2, 2, 2, 10, 10]"
  by code_simp

lemma groupby_trend_boundary:
  "map snd (groupby_size (replicate 1 2019 @ replicate 2 2020 @ replicate 2 2021
      @ replicate 1 2022 @ replicate 1 2023 @ replicate 2 (2024::int))) = [1, 2, 2, 1, 1, 2]"
  by code_simp

lemma groupby_two_years:
  "map snd (groupby_size (replicate 1 2023 @ replicate 20 (2024::int))) = [1, 20]"
  by code_simp

lemma year_counts_trend_up: "year_counts table_trend_up = [2, 2, 2, 10, 10]"
  unfolding year_counts_groupby table_trend_up_def map_append years_rows_of_year
  by (rule groupby_trend_up)

lemma year_counts_trend_boundary: "year_counts table_trend_boundary = [1, 2, 2, 1, 1, 2]"
  unfolding year_counts_groupby table_trend_boundary_def map_append years_rows_of_year
  by (rule groupby_trend_boundary)

lemma year_counts_two_years: "year_counts table_two_years = [1, 20]"
  unfolding year_counts_groupby table_two_years_def map_append years_rows_of_year
  by (rule groupby_two_years)

lemma trend_up_compare: "fl (fl (exact_mean [2, 2]) * fl (12 / 10)) < fl (exact_mean [2, 10, 10])"
  by code_simp

lemma trend_boundary_compare:
  "\<not> fl (fl (exact_mean [1, 2, 2]) * fl (12 / 10)) < fl (exact_mean [1, 1, 2])"
  "fl (exact_mean [1, 1, 2]) < fl (fl (exact_mean [1, 2, 2]) * fl (8 / 10))"
  by code_simp+

subsection \<open>Rounded and exact comparison\<close>

lemma fl_le_double: "0 \<le> x \<Longrightarrow> fl x \<le> 2 * x"
proof -
  assume x: "0 \<le> x"
  have "\<bar>fl x - x\<bar> \<le> \<bar>x\<bar> / 2 ^ 53" by (rule fl_error)
  moreover have "\<bar>x\<bar> / 2 ^ 53 \<le> x" using x by (simp add: field_simps)
  ultimately show ?thesis by linarith
qed

lemma fl_prod_error:
  assumes "0 \<le> x" "0 \<le> y"
  shows "\<bar>fl (fl x * fl y) - x * y\<bar> \<le> 7 * (x * y) / 2 ^ 53"
proof -
  define u :: rat where "u = 1 / 2 ^ 53"
  define X where "X = fl x"
  define Y where "Y = fl y"
  have u: "0 \<le> u" by (simp add: u_def)
  have X0: "0 \<le> X" and Y0: "0 \<le> Y" using assms by (simp_all add: X_def Y_def fl_nonneg)
  have X2: "X \<le> 2 * x" and Y2: "Y \<le> 2 * y"
    using assms by (simp_all add: X_def Y_def fl_le_double)
  have eX: "\<bar>X - x\<bar> \<le> x * u" using fl_error [of x] assms(1) by (simp add: X_def u_def)
  have eY: "\<bar>Y - y\<bar> \<le> y * u" using fl_error [of y] assms(2) by (simp add: Y_def u_def)
  have XY: "X * Y \<le> 4 * (x * y)"
  proof -
    have "X * Y \<le> (2 * x) * (2 * y)" using X2 Y2 X0 Y0 assms by (intro mult_mono) simp_all
    then show ?thesis by simp
  qed
  have e1: "\<bar>fl (X * Y) - X * Y\<bar> \<le> 4 * (x * y) * u"
  proof -
    have "\<bar>fl (X * Y) - X * Y\<bar> \<le> \<bar>X * Y\<bar> / 2 ^ 53" by (rule fl_error)
    also have "\<dots> = (X * Y) * u" using X0 Y0 by (simp add: u_def)
    also have "\<dots> \<le> (4 * (x * y)) * u" using XY u by (rule mult_right_mono)
    finally show ?thesis .
  qed
  have e2: "\<bar>X * Y - x * y\<bar> \<le> 3 * (x * y) * u"
  proof -
    have "X * Y - x * y = (X - x) * Y + x * (Y - y)" by (simp add: algebra_simps)
    then have "\<bar>X * Y - x * y\<bar> \<le> \<bar>(X - x) * Y\<bar> + \<bar>x * (Y - y)\<bar>" by (simp only: abs_triangle_ineq)
    also have "\<dots> = \<bar>X - x\<bar> * Y + x * \<bar>Y - y\<bar>" using Y0 assms(1) by (simp add: abs_mult)
    also have "\<dots> \<le> (x * u) * (2 * y) + x * (y * u)"
    proof (rule add_mono)
      show "\<bar>X - x\<bar> * Y \<le> (x * u) * (2 * y)"
        using eX Y2 Y0 assms u by (intro mult_mono) simp_all
      show "x * \<bar>Y - y\<bar> \<le> x * (y * u)" using eY assms(1) by (rule mult_left_mono)
    qed
    also have "\<dots> = 3 * (x * y) * u" by (simp add: algebra_simps)
    finally show ?thesis .
  qed
  have "\<bar>fl (X * Y) - x * y\<bar> \<le> \<bar>fl (X * Y) - X * Y\<bar> + \<bar>X * Y - x * y\<bar>" by linarith
  also have "\<dots> \<le> 4 * (x * y) * u + 3 * (x * y) * u" using e1 e2 by (rule add_mono)
  also have "\<dots> = 7 * (x * y) / 2 ^ 53" by (simp add: u_def)
  finally show ?thesis by (simp add: X_def Y_def)
qed

lemma fl_error_u:
  assumes "0 \<le> x"
  shows "x - x * (1 / 2 ^ 53) \<le> fl x" and "fl x \<le> x + x * (1 / 2 ^ 53)"
proof -
  have "\<bar>fl x - x\<bar> \<le> \<bar>x\<bar> / 2 ^ 53" by (rule fl_error)
  also have "\<bar>x\<bar> / 2 ^ 53 = x * (1 / 2 ^ 53)" using assms by simp
  finally have "\<bar>fl x - x\<bar> \<le> x * (1 / 2 ^ 53)" .
  then show "x - x * (1 / 2 ^ 53) \<le> fl x" and "fl x \<le> x + x * (1 / 2 ^ 53)"
    by linarith+
qed

lemma fl_prod_error_u:
  assumes "0 \<le> x" "0 \<le> y"
  shows "x * y - 7 * ((x * y) * (1 / 2 ^ 53)) \<le> fl (fl x * fl y)"
    and "fl (fl x * fl y) \<le> x * y + 7 * ((x * y) * (1 / 2 ^ 53))"
proof -
  have "7 * (x * y) / 2 ^ 53 = 7 * ((x * y) * (1 / 2 ^ 53))" by simp
  with fl_prod_error [OF assms]
  have "\<bar>fl (fl x * fl y) - x * y\<bar> \<le> 7 * ((x * y) * (1 / 2 ^ 53))" by (simp only:)
  then show "x * y - 7 * ((x * y) * (1 / 2 ^ 53)) \<le> fl (fl x * fl y)"
    and "fl (fl x * fl y) \<le> x * y + 7 * ((x * y) * (1 / 2 ^ 53))"
    by linarith+
qed

lemma compare_above:
  assumes "0 \<le> r" "0 \<le> e" "0 \<le> q"
    and "80 * ((e * q) * (1 / 2 ^ 53)) < 9 * r - 9 * (e * q)"
  shows "fl (fl e * fl q) < fl r"
proof -
  define u :: rat where "u = 1 / 2 ^ 53"
  define a where "a = e * q"
  have a0: "0 \<le> a" using assms by (simp add: a_def)
  have u: "0 \<le> u" "10 * u \<le> 1" by (simp_all add: u_def)
  have au: "0 \<le> a * u" using a0 u by simp
  have U: "fl (fl e * fl q) \<le> a + 7 * (a * u)"
    using fl_prod_error_u(2) [OF assms(2) assms(3)] by (simp only: a_def u_def)
  have R: "r - r * u \<le> fl r" using fl_error_u(1) [OF assms(1)] by (simp only: u_def)
  have gap: "80 * (a * u) < 9 * r - 9 * a" using assms(4) by (simp only: a_def u_def)
  have g: "0 \<le> r - a" using gap au by linarith
  have "(r - a) * (10 * u) \<le> (r - a) * 1" using u(2) g by (rule mult_left_mono)
  then have "10 * ((r - a) * u) \<le> r - a" by simp
  moreover have "r * u = (r - a) * u + a * u" by (simp add: algebra_simps)
  ultimately show ?thesis using U R gap unfolding a_def [symmetric] by linarith
qed

lemma compare_below:
  assumes "0 \<le> r" "0 \<le> e" "0 \<le> q"
    and "8 * ((e * q) * (1 / 2 ^ 53)) < e * q - r"
  shows "fl r < fl (fl e * fl q)"
proof -
  define u :: rat where "u = 1 / 2 ^ 53"
  define a where "a = e * q"
  have a0: "0 \<le> a" using assms by (simp add: a_def)
  have u: "0 \<le> u" by (simp add: u_def)
  have au: "0 \<le> a * u" using a0 u by simp
  have U: "a - 7 * (a * u) \<le> fl (fl e * fl q)"
    using fl_prod_error_u(1) [OF assms(2) assms(3)] by (simp only: a_def u_def)
  have R: "fl r \<le> r + r * u" using fl_error_u(2) [OF assms(1)] by (simp only: u_def)
  have gap: "8 * (a * u) < a - r" using assms(4) by (simp only: a_def u_def)
  have "r \<le> a" using gap au by linarith
  then have "r * u \<le> a * u" using u by (rule mult_right_mono)
  then show ?thesis using U R gap unfolding a_def [symmetric] by linarith
qed

lemma ratio_compare:
  fixes S T m a b :: nat
  assumes m: "0 < m" and b: "0 < b" and a: "a \<le> 9" and T: "T \<le> 2 ^ 45"
  defines "r \<equiv> of_nat S / 3 :: rat"
    and "e \<equiv> of_nat T / of_nat m :: rat"
    and "q \<equiv> of_nat a / of_nat b :: rat"
  shows "q * e < r \<Longrightarrow> fl (fl e * fl q) < fl r"
    and "r < q * e \<Longrightarrow> fl r < fl (fl e * fl q)"
proof -
  define w :: rat where "w = 1 / (3 * of_nat b * of_nat m)"
  have w: "0 < w" using m b by (simp add: w_def)
  have r0: "0 \<le> r" and e0: "0 \<le> e" and q0: "0 \<le> q" by (simp_all add: r_def e_def q_def)
  have eq_w: "e * q = of_nat (3 * a * T) * w"
    using m b by (simp add: e_def q_def w_def mult.commute)
  have r_w: "r = of_nat (b * m * S) * w"
    using m b by (simp add: r_def w_def)
  have "3 * a * T \<le> 3 * 9 * 2 ^ 45" using a T by (intro mult_mono) simp_all
  then have "(of_nat (3 * a * T) :: rat) \<le> of_nat (3 * 9 * 2 ^ 45)" by (simp only: of_nat_le_iff)
  then have "(of_nat (3 * a * T) :: rat) \<le> 27 * 2 ^ 45" by simp
  then have "of_nat (3 * a * T) * w \<le> (27 * 2 ^ 45) * w" using w by (simp only: mult_right_mono less_imp_le)
  then have "e * q \<le> (27 * 2 ^ 45) * w" by (simp only: eq_w)
  then have "(e * q) * (1 / 2 ^ 53) \<le> ((27 * 2 ^ 45) * w) * (1 / 2 ^ 53)"
    by (rule mult_right_mono) simp
  then have small: "256 * ((e * q) * (1 / 2 ^ 53)) \<le> 27 * w" by simp
  {
    assume "q * e < r"
    then have "of_nat (3 * a * T) * w < of_nat (b * m * S) * w"
      by (simp only: mult.commute [of q e] eq_w r_w)
    then have "(of_nat (3 * a * T) :: rat) < of_nat (b * m * S)" using w by (simp only: mult_less_cancel_right_pos)
    then have "3 * a * T < b * m * S" by (simp only: of_nat_less_iff)
    then have "3 * a * T + 1 \<le> b * m * S" by simp
    then have "(of_nat (3 * a * T + 1) :: rat) \<le> of_nat (b * m * S)" by (simp only: of_nat_le_iff)
    then have "of_nat (3 * a * T + 1) * w \<le> of_nat (b * m * S) * w"
      using w by (simp only: mult_right_mono less_imp_le)
    then have "e * q + w \<le> r" by (simp add: eq_w r_w algebra_simps)
    with small w have "80 * ((e * q) * (1 / 2 ^ 53)) < 9 * r - 9 * (e * q)" by linarith
    then show "fl (fl e * fl q) < fl r" by (rule compare_above [OF r0 e0 q0])
  }
  {
    assume "r < q * e"
    then have "of_nat (b * m * S) * w < of_nat (3 * a * T) * w"
      by (simp only: mult.commute [of q e] eq_w r_w)
    then have "(of_nat (b * m * S) :: rat) < of_nat (3 * a * T)" using w by (simp only: mult_less_cancel_right_pos)
    then have "b * m * S < 3 * a * T" by (simp only: of_nat_less_iff)
    then have "b * m * S + 1 \<le> 3 * a * T" by simp
    then have "(of_nat (b * m * S + 1) :: rat) \<le> of_nat (3 * a * T)" by (simp only: of_nat_le_iff)
    then have "of_nat (b * m * S + 1) * w \<le> of_nat (3 * a * T) * w"
      using w by (simp only: mult_right_mono less_imp_le)
    then have "r + w \<le> e * q" by (simp add: eq_w r_w algebra_simps)
    with small w have "8 * ((e * q) * (1 / 2 ^ 53)) < e * q - r" by linarith
    then show "fl r < fl (fl e * fl q)" by (rule compare_below [OF r0 e0 q0])
  }
qed

lemma sum_year_counts: "sum_list (year_counts df) = length df"
proof -
  let ?ys = "map leave_year df"
  have "sum_list (year_counts df)
      = sum_list (map (count_list ?ys) (sorted_list_of_set (set ?ys)))"
    by (simp add: year_counts_def count_list_map_filter [abs_def])
  also have "\<dots> = sum (count_list ?ys) (set (sorted_list_of_set (set ?ys)))"
    by (rule sum_list_distinct_conv_sum_set) simp
  also have "\<dots> = sum (count_list ?ys) (set ?ys)" by simp
  also have "\<dots> = length ?ys" by (rule sum_count_set) simp_all
  finally show ?thesis by simp
qed

lemma sum_earlier_counts: "sum_list (earlier_counts df) \<le> length df"
proof -
  let ?cs = "year_counts df"
  let ?k = "length ?cs - 3"
  have "sum_list (take ?k ?cs) + sum_list (drop ?k ?cs) = sum_list ?cs"
    by (metis append_take_drop_id sum_list_append)
  then show ?thesis by (simp add: earlier_counts_def sum_year_counts [symmetric])
qed

lemma trend_exact:
  assumes n: "4 \<le> length (year_counts df)" and rows: "length df \<le> 2 ^ 45"
  shows "12 / 10 * exact_mean (earlier_counts df) < exact_mean (recent_counts df)
           \<Longrightarrow> yearly_trend_insights df = [msg_trend_up]"
    and "exact_mean (recent_counts df) < 12 / 10 * exact_mean (earlier_counts df)
           \<Longrightarrow> yearly_trend_insights df \<noteq> [msg_trend_up]"
    and "exact_mean (recent_counts df) < 8 / 10 * exact_mean (earlier_counts df)
           \<Longrightarrow> yearly_trend_insights df = [msg_trend_down]"
    and "8 / 10 * exact_mean (earlier_counts df) < exact_mean (recent_counts df)
           \<Longrightarrow> yearly_trend_insights df \<noteq> [msg_trend_down]"
proof -
  define S where "S = sum_list (recent_counts df)"
  define T where "T = sum_list (earlier_counts df)"
  define m where "m = length (earlier_counts df)"
  define r where "r = exact_mean (recent_counts df)"
  define e where "e = exact_mean (earlier_counts df)"
  have len3: "length (recent_counts df) = 3" using n by (simp add: recent_counts_def)
  have m: "0 < m" using n by (simp add: m_def earlier_counts_def)
  have T: "T \<le> 2 ^ 45" using sum_earlier_counts [of df] rows by (simp add: T_def)
  have r: "r = of_nat S / 3" by (simp add: r_def exact_mean_def len3 S_def)
  have e: "e = of_nat T / of_nat m" by (simp add: e_def exact_mean_def T_def m_def)
  have e0: "0 \<le> e" unfolding e_def by (rule exact_mean_nonneg)
  have q12: "(12 / 10 :: rat) = of_nat 6 / of_nat 5" and q8: "(8 / 10 :: rat) = of_nat 4 / of_nat 5"
    by simp_all
  note c12 = ratio_compare [OF m, of 5 6 T S, folded r e q12]
  note c8 = ratio_compare [OF m, of 5 4 T S, folded r e q8]
  have up: "12 / 10 * e < r \<Longrightarrow> fl (fl e * fl (12 / 10)) < fl r"
    and not_up: "r < 12 / 10 * e \<Longrightarrow> fl r < fl (fl e * fl (12 / 10))"
    using c12 T by simp_all
  have not_down: "8 / 10 * e < r \<Longrightarrow> fl (fl e * fl (8 / 10)) < fl r"
    and down: "r < 8 / 10 * e \<Longrightarrow> fl r < fl (fl e * fl (8 / 10))"
    using c8 T by simp_all
  have eq: "yearly_trend_insights df =
      (if fl (fl e * fl (12 / 10)) < fl r then [msg_trend_up]
       else if fl r < fl (fl e * fl (8 / 10)) then [msg_trend_down] else [])"
    using n by (simp add: yearly_trend_eq r_def e_def)
  have ne: "msg_trend_up \<noteq> msg_trend_down" by (simp add: msg_trend_up_def msg_trend_down_def)
  show "12 / 10 * exact_mean (earlier_counts df) < exact_mean (recent_counts df)
           \<Longrightarrow> yearly_trend_insights df = [msg_trend_up]"
    using up by (simp add: eq r_def e_def)
  show "exact_mean (recent_counts df) < 12 / 10 * exact_mean (earlier_counts df)
           \<Longrightarrow> yearly_trend_insights df \<noteq> [msg_trend_up]"
    using not_up ne by (auto simp: eq r_def e_def)
  show "exact_mean (recent_counts df) < 8 / 10 * exact_mean (earlier_counts df)
           \<Longrightarrow> yearly_trend_insights df = [msg_trend_down]"
  proof -
    assume a: "exact_mean (recent_counts df) < 8 / 10 * exact_mean (earlier_counts df)"
    then have "r < 8 / 10 * e" by (simp add: r_def e_def)
    moreover from this e0 have "r < 12 / 10 * e" by linarith
    ultimately show ?thesis using down not_up by (simp add: eq)
  qed
  show "8 / 10 * exact_mean (earlier_counts df) < exact_mean (recent_counts df)
           \<Longrightarrow> yearly_trend_insights df \<noteq> [msg_trend_down]"
    using not_down ne by (auto simp: eq r_def e_def)
qed

text \<open>
  Claim C3, as the code has it. The counts per year are those of \<open>year_counts\<close>. With
  fewer than four distinct years the rule emits nothing: below two years the guard skips
  it, and with two or three years there are no earlier years, their mean is NaN and both
  comparisons are false. With four or more years the rule compares doubles: the mean of
  the last three counts, rounded, against the rounded product of the rounded mean of the
  earlier counts and the double nearest to 1.2, and then against the same with 0.8. The
  lower threshold never exceeds the upper one, so the two insights exclude each other.
  On a table of at most \<open>2 ^ 45\<close> rows the doubles decide as the exact means do whenever
  the exact means differ from the threshold: the upward insight is emitted when the recent
  mean exceeds 1.2 times the earlier mean and is not emitted when it is below, the downward
  insight is emitted when the recent mean is below 0.8 times the earlier mean and is not
  emitted when it is above. Only at exact equality does the rounding decide. On the years
  2020 to 2024 with the counts 2, 2, 2, 10, 10 the upward insight is emitted.
\<close>

theorem c3_yearly_trend:
  "yearly_trend_insights df =
     (if length (year_counts df) < 4 then []
      else if fl (fl (exact_mean (earlier_counts df)) * fl (12 / 10))
              < fl (exact_mean (recent_counts df))
      then [msg_trend_up]
      else if fl (exact_mean (recent_counts df))
              < fl (fl (exact_mean (earlier_counts df)) * fl (8 / 10))
      then [msg_trend_down]
      else [])
   \<and> fl (fl (exact_mean (earlier_counts df)) * fl (8 / 10))
       \<le> fl (fl (exact_mean (earlier_counts df)) * fl (12 / 10))
   \<and> (4 \<le> length (year_counts df) \<and> length df \<le> 2 ^ 45 \<longrightarrow>
        (12 / 10 * exact_mean (earlier_counts df) < exact_mean (recent_counts df)
           \<longrightarrow> yearly_trend_insights df = [msg_trend_up])
        \<and> (exact_mean (recent_counts df) < 12 / 10 * exact_mean (earlier_counts df)
           \<longrightarrow> yearly_trend_insights df \<noteq> [msg_trend_up])
        \<and> (exact_mean (recent_counts df) < 8 / 10 * exact_mean (earlier_counts df)
           \<longrightarrow> yearly_trend_insights df = [msg_trend_down])
        \<and> (8 / 10 * exact_mean (earlier_counts df) < exact_mean (recent_counts df)
           \<longrightarrow> yearly_trend_insights df \<noteq> [msg_trend_down]))
   \<and> year_counts table_trend_up = [2, 2, 2, 10, 10]
   \<and> yearly_trend_insights table_trend_up = [msg_trend_up]"
proof -
  have example: "yearly_trend_insights table_trend_up = [msg_trend_up]"
    using trend_up_compare
    by (simp add: yearly_trend_eq recent_counts_def earlier_counts_def year_counts_trend_up)
  have exact: "4 \<le> length (year_counts df) \<and> length df \<le> 2 ^ 45 \<longrightarrow>
        (12 / 10 * exact_mean (earlier_counts df) < exact_mean (recent_counts df)
           \<longrightarrow> yearly_trend_insights df = [msg_trend_up])
        \<and> (exact_mean (recent_counts df) < 12 / 10 * exact_mean (earlier_counts df)
           \<longrightarrow> yearly_trend_insights df \<noteq> [msg_trend_up])
        \<and> (exact_mean (recent_counts df) < 8 / 10 * exact_mean (earlier_counts df)
           \<longrightarrow> yearly_trend_insights df = [msg_trend_down])
        \<and> (8 / 10 * exact_mean (earlier_counts df) < exact_mean (recent_counts df)
           \<longrightarrow> yearly_trend_insights df \<noteq> [msg_trend_down])"
    using trend_exact [of df] by blast
  show ?thesis
    using yearly_trend_eq [of df] trend_thresholds_ordered [of "earlier_counts df"] exact
      year_counts_trend_up example
    by (intro conjI)
qed

text \<open>
  Two years, with 1 and 20 rows: no trend insight. The years 2020 to 2024 with the counts
  2, 2, 2, 10, 10: five years and 26 rows, the recent mean 22/3 exceeds 1.2 times the
  earlier mean 2, and the upward insight is emitted.
\<close>

theorem c3_yearly_trend_witness:
  "yearly_trend_insights table_two_years = []
   \<and> 4 \<le> length (year_counts table_trend_up) \<and> length table_trend_up \<le> 2 ^ 45
   \<and> 12 / 10 * exact_mean (earlier_counts table_trend_up)
       < exact_mean (recent_counts table_trend_up)
   \<and> yearly_trend_insights table_trend_up = [msg_trend_up]"
proof -
  have a: "yearly_trend_insights table_two_years = []"
    using c3_yearly_trend [of table_two_years] by (simp add: year_counts_two_years)
  have n: "4 \<le> length (year_counts table_trend_up)" by (simp add: year_counts_trend_up)
  have l: "length table_trend_up \<le> 2 ^ 45"
    by (simp add: table_trend_up_def rows_of_year_def)
  have g: "12 / 10 * exact_mean (earlier_counts table_trend_up)
      < exact_mean (recent_counts table_trend_up)"
    by (simp add: earlier_counts_def recent_counts_def year_counts_trend_up exact_mean_def)
  from c3_yearly_trend [of table_trend_up] n l g
  have "yearly_trend_insights table_trend_up = [msg_trend_up]" by blast
  with a n l g show ?thesis by (intro conjI)
qed

text \<open>
  Claim C3 as it is written compares the means themselves. On the years 2019 to 2024 with
  the counts 1, 2, 2, 1, 1, 2 the recent mean is 4/3 and the earlier mean is 5/3, so the
  recent mean equals 0.8 times the earlier mean and is not below it; the doubles compare
  as 1.3333333333333333 < 1.3333333333333335 and the downward insight is emitted.
\<close>

theorem c3_counterexample:
  "year_counts table_trend_boundary = [1, 2, 2, 1, 1, 2]
   \<and> exact_mean (recent_counts table_trend_boundary) = 4 / 3
   \<and> exact_mean (earlier_counts table_trend_boundary) = 5 / 3
   \<and> \<not> exact_mean (recent_counts table_trend_boundary)
         < 8 / 10 * exact_mean (earlier_counts table_trend_boundary)
   \<and> yearly_trend_insights table_trend_boundary = [msg_trend_down]"
proof -
  have r: "recent_counts table_trend_boundary = [1, 1, 2]"
    and e: "earlier_counts table_trend_boundary = [1, 2, 2]"
    by (simp_all add: recent_counts_def earlier_counts_def year_counts_trend_boundary)
  have "yearly_trend_insights table_trend_boundary = [msg_trend_down]"
    using trend_boundary_compare
    by (simp add: yearly_trend_eq r e year_counts_trend_boundary)
  moreover have "exact_mean [1, 1, 2] = 4 / 3" "exact_mean [1, 2, 2] = 5 / 3"
    by (simp_all add: exact_mean_def)
  ultimately show ?thesis
    by (simp add: r e year_counts_trend_boundary)
qed

section \<open>The insights\<close>

lemma pct_share:
  "df \<noteq> [] \<Longrightarrow> pct (map P df) = Fin (share (count_where P df) (length df))"
  by (simp add: pct_Fin share_def count_where_def filter_map comp_def)

lemma f64_of_int_numeral: "f64_of_int 65 = Fin 65" "f64_of_int 50 = Fin 50"
  "f64_of_int 40 = Fin 40" "f64_of_int 30 = Fin 30"
  by (simp_all add: f64_of_int_def fl_65 fl_50 fl_40 fl_30)

lemma gender_insights_eq:
  assumes "df \<noteq> []"
  shows "gender_insights df =
     (if 65 < share (count_where (\<lambda>r. gender r = gender_male) df) (length df)
      then [msg_male_high
            @ fmt_1f (Fin (share (count_where (\<lambda>r. gender r = gender_male) df) (length df)))
            @ msg_pct_close]
      else if 50 < share (count_where (\<lambda>r. gender r = gender_female) df) (length df)
      then [msg_female_high
            @ fmt_1f (Fin (share (count_where (\<lambda>r. gender r = gender_female) df) (length df)))
            @ msg_pct_close]
      else [])"
  using assms by (simp add: gender_insights_def Let_def pct_share f64_of_int_numeral)

lemma age_insights_eq:
  assumes "df \<noteq> []"
  shows "age_insights df =
     (if 40 < share (count_where (\<lambda>r. age r < 30) df) (length df)
      then [msg_young @ fmt_1f (Fin (share (count_where (\<lambda>r. age r < 30) df) (length df)))
            @ msg_pct_close]
      else [])"
  using assms by (simp add: age_insights_def Let_def pct_share f64_of_int_numeral)

lemma service_insights_eq:
  assumes "df \<noteq> []"
  shows "service_insights df =
     (if 30 < share (count_where (\<lambda>r. service_years r < 2) df) (length df)
      then [msg_short_pre
            @ fmt_1f (Fin (share (count_where (\<lambda>r. service_years r < 2) df) (length df)))
            @ msg_short_post]
      else [])"
  using assms by (simp add: service_insights_def Let_def pct_share f64_of_int_numeral)

lemma top_reason_first:
  assumes "df \<noteq> []"
  shows "\<exists>r. iloc0 (mode (map reason df)) = Inr r \<and> r \<in> reason ` set df
           \<and> (\<forall>r'. count_where (\<lambda>x. reason x = r') df \<le> count_where (\<lambda>x. reason x = r) df)
           \<and> (\<forall>r'. count_where (\<lambda>x. reason x = r') df = count_where (\<lambda>x. reason x = r) df
                  \<longrightarrow> r \<le> r')"
proof -
  have "map reason df \<noteq> []" using assms by simp
  from mode_first [OF this] show ?thesis
    by (simp add: count_list_map_filter count_where_def)
qed

lemma top_dept_first:
  assumes "df \<noteq> []"
  shows "\<exists>d. iloc0 (map fst (value_counts (map department df))) = Inr d
           \<and> d \<in> department ` set df
           \<and> (\<forall>d'. count_where (\<lambda>x. department x = d') df
                  \<le> count_where (\<lambda>x. department x = d) df)"
proof -
  have "map department df \<noteq> []" using assms by simp
  from value_counts_first [OF this] show ?thesis
    by (simp add: count_list_map_filter count_where_def)
qed

lemma generate_insights_parts:
  assumes "iloc0 (mode (map reason df)) = Inr r"
    and "iloc0 (map fst (value_counts (map department df))) = Inr d"
    and "df \<noteq> []"
  shows "generate_insights (self\<lparr>processed_data := Some df\<rparr>) =
     Inr (self\<lparr>processed_data := Some df,
              insights :=
                gender_insights df
                @ [msg_top_reason @ r @ msg_pct_open
                   @ fmt_1f (Fin (share (count_where (\<lambda>x. reason x = r) df) (length df)))
                   @ msg_pct_close]
                @ yearly_trend_insights df
                @ [msg_top_dept @ d]
                @ age_insights df @ service_insights df\<rparr>)"
  using assms
  by (simp add: generate_insights_def top_reason_insights_def department_insights_def Let_def
      pct_share)

lemma length_gender_insights: "length (gender_insights df) \<le> 1"
  by (simp add: gender_insights_def Let_def)

lemma length_yearly_trend_insights: "length (yearly_trend_insights df) \<le> 1"
  by (simp add: yearly_trend_insights_def Let_def)

lemma length_age_insights: "length (age_insights df) \<le> 1"
  by (simp add: age_insights_def Let_def)

lemma length_service_insights: "length (service_insights df) \<le> 1"
  by (simp add: service_insights_def Let_def)

text \<open>
  Claim C10. On a table with at least one row \<open>generate_insights\<close> raises nothing and
  stores the list made of the six blocks in their order. The blocks of the top reason and
  of the top department contribute exactly one string each; the blocks of gender, yearly
  trend, age and service contribute at most one string each. The list has between 2 and 6
  strings.
\<close>

theorem c10_insights_length:
  assumes "df \<noteq> []"
  shows "\<exists>self' r d.
           generate_insights (self\<lparr>processed_data := Some df\<rparr>) = Inr self'
           \<and> insights self' =
               gender_insights df
               @ [msg_top_reason @ r @ msg_pct_open
                  @ fmt_1f (Fin (share (count_where (\<lambda>x. reason x = r) df) (length df)))
                  @ msg_pct_close]
               @ yearly_trend_insights df
               @ [msg_top_dept @ d]
               @ age_insights df @ service_insights df
           \<and> length (gender_insights df) \<le> 1
           \<and> length (yearly_trend_insights df) \<le> 1
           \<and> length (age_insights df) \<le> 1
           \<and> length (service_insights df) \<le> 1
           \<and> 2 \<le> length (insights self') \<and> length (insights self') \<le> 6"
proof -
  from top_reason_first [OF assms] obtain r where r: "iloc0 (mode (map reason df)) = Inr r"
    by blast
  from top_dept_first [OF assms] obtain d
    where d: "iloc0 (map fst (value_counts (map department df))) = Inr d"
    by blast
  note g = generate_insights_parts [OF r d assms, of self]
  note l = length_gender_insights [of df] length_yearly_trend_insights [of df]
    length_age_insights [of df] length_service_insights [of df]
  show ?thesis
    apply (rule exI, rule exI [of _ r], rule exI [of _ d])
    apply (rule conjI, rule g)
    using l by simp
qed

lemma count_where_le: "count_where P xs \<le> length xs"
  by (simp add: count_where_def)

lemma count_where_simps:
  "count_where P [] = 0"
  "count_where P (xs @ ys) = count_where P xs + count_where P ys"
  "count_where P (replicate n x) = (if P x then n else 0)"
  "count_where P (map f xs) = count_where (\<lambda>x. P (f x)) xs"
  "count_where P (x # xs) = (if P x then 1 else 0) + count_where P xs"
  by (simp_all add: count_where_def filter_map comp_def)






lemma share_7_10: "share 7 10 = 70"
  unfolding share_def by code_simp

lemma fmt_70: "fmt_1f (Fin 70) = [0x37, 0x30, 0x2E, 0x30]"
  by code_simp

lemma seven_three_counts:
  "table_seven_three \<noteq> []"
  "length table_seven_three = 10"
  "count_where (\<lambda>r. gender r = gender_male) table_seven_three = 7"
  "count_where (\<lambda>r. gender r = gender_female) table_seven_three = 3"
  by (simp_all add: table_seven_three_def count_where_simps categorize_fields example_row_def
      gender_male_def gender_female_def)

lemma gender_insights_seven_three:
  "gender_insights table_seven_three = [msg_male_high @ [0x37, 0x30, 0x2E, 0x30] @ msg_pct_close]"
  by (simp add: gender_insights_eq [OF seven_three_counts(1)] seven_three_counts share_7_10
      fmt_70)



lemma share_0: "share 0 n = 0"
  by (simp add: share_def fl_zero)


lemma share_10_10: "share 10 10 = 100"
  unfolding share_def by code_simp


lemma fmt_100: "fmt_1f (Fin 100) = [0x31, 0x30, 0x30, 0x2E, 0x30]"
  by code_simp











section \<open>The recommendations\<close>

lemma service_recommendations_eq:
  assumes "df \<noteq> []"
  shows "service_recommendations df =
     (if 30 < share (count_where (\<lambda>r. service_years r < 2) df) (length df)
      then [rec_onboarding_1, rec_onboarding_2] else [])"
  using assms by (simp add: service_recommendations_def Let_def pct_share f64_of_int_numeral)

lemma gender_recommendations_eq:
  assumes "df \<noteq> []"
  shows "gender_recommendations df =
     (if 65 < share (count_where (\<lambda>r. gender r = gender_male) df) (length df)
      then [rec_male] else [rec_balance])"
  using assms by (simp add: gender_recommendations_def Let_def pct_share f64_of_int_numeral)

lemma generate_recommendations_parts:
  assumes "iloc0 (mode (map reason df)) = Inr r"
    and "iloc0 (map fst (value_counts (map department df))) = Inr d"
  shows "generate_recommendations (self\<lparr>processed_data := Some df\<rparr>) =
     Inr (reason_recommendations r @ service_recommendations df @ gender_recommendations df
          @ [rec_top_dept @ d])"
  using assms by (simp add: generate_recommendations_def)

lemma length_reason_recommendations:
  "length (reason_recommendations r) = 0 \<or> length (reason_recommendations r) = 2"
  by (simp add: reason_recommendations_def)

lemma length_service_recommendations:
  "length (service_recommendations df) = 0 \<or> length (service_recommendations df) = 2"
  by (simp add: service_recommendations_def Let_def)

lemma length_gender_recommendations: "length (gender_recommendations df) = 1"
  by (simp add: gender_recommendations_def Let_def)

text \<open>
  Claim C9. On a table with at least one row \<open>generate_recommendations\<close> raises nothing
  and returns the four blocks in their order: none or two strings for the top reason, none
  or two strings for short service, one string for the gender share and one string for the
  top department. The list has 2, 4 or 6 strings, an even number.
\<close>

theorem c9_recommendations_length:
  assumes "df \<noteq> []"
  shows "\<exists>recs r d.
           generate_recommendations (self\<lparr>processed_data := Some df\<rparr>) = Inr recs
           \<and> recs = reason_recommendations r @ service_recommendations df
                    @ gender_recommendations df @ [rec_top_dept @ d]
           \<and> (length (reason_recommendations r) = 0 \<or> length (reason_recommendations r) = 2)
           \<and> (length (service_recommendations df) = 0
               \<or> length (service_recommendations df) = 2)
           \<and> length (gender_recommendations df) = 1
           \<and> (length recs = 2 \<or> length recs = 4 \<or> length recs = 6)
           \<and> even (length recs)"
proof -
  from top_reason_first [OF assms] obtain r where r: "iloc0 (mode (map reason df)) = Inr r"
    by blast
  from top_dept_first [OF assms] obtain d
    where d: "iloc0 (map fst (value_counts (map department df))) = Inr d"
    by blast
  note g = generate_recommendations_parts [OF r d, of self]
  note l = length_reason_recommendations [of r] length_service_recommendations [of df]
    length_gender_recommendations [of df]
  show ?thesis
    apply (rule exI, rule exI [of _ r], rule exI [of _ d])
    apply (rule conjI, rule g)
    using l by auto
qed

lemma rec_male_elsewhere:
  "rec_male \<notin> set (reason_recommendations r)"
  "rec_male \<notin> set (service_recommendations df)"
  "rec_male \<noteq> rec_balance"
  "rec_balance \<noteq> rec_male"
  "rec_top_dept @ d \<noteq> rec_male"
  by (simp_all add: reason_recommendations_def service_recommendations_def Let_def
      rec_male_def rec_balance_def rec_top_dept_def rec_other_job_1_def rec_other_job_2_def
      rec_salary_1_def rec_salary_2_def rec_environment_1_def rec_environment_2_def
      rec_onboarding_1_def rec_onboarding_2_def)

lemma rec_balance_elsewhere:
  "rec_balance \<notin> set (reason_recommendations r)"
  "rec_balance \<notin> set (service_recommendations df)"
  "rec_top_dept @ d \<noteq> rec_balance"
  by (simp_all add: reason_recommendations_def service_recommendations_def Let_def
      rec_balance_def rec_top_dept_def rec_other_job_1_def rec_other_job_2_def
      rec_salary_1_def rec_salary_2_def rec_environment_1_def rec_environment_2_def
      rec_onboarding_1_def rec_onboarding_2_def)

lemma rec_top_dept_elsewhere:
  "filter (prefix rec_top_dept) (reason_recommendations r) = []"
  "filter (prefix rec_top_dept) (service_recommendations df) = []"
  "filter (prefix rec_top_dept) (gender_recommendations df) = []"
  by (simp_all add: reason_recommendations_def service_recommendations_def
      gender_recommendations_def Let_def
      rec_male_def rec_balance_def rec_top_dept_def rec_other_job_1_def rec_other_job_2_def
      rec_salary_1_def rec_salary_2_def rec_environment_1_def rec_environment_2_def
      rec_onboarding_1_def rec_onboarding_2_def)

text \<open>
  Claim C5. On a table with at least one row the list of recommendations holds the
  male-focused string once and the work-life-balance string not at all when the male share
  is above 65, and the reverse otherwise; the two strings differ. The male share is the
  double the program computes; on a table of at most \<open>2 ^ 45\<close> rows it is above 65 exactly
  when more than 65 per cent of the rows are male. The list ends with the string
  for the top department, a department of the table that no other department exceeds in
  rows, and that string is the only one of the list that starts with the department
  template.
\<close>

theorem c5_gender_and_department:
  assumes "df \<noteq> []"
  shows "\<exists>recs d.
           generate_recommendations (self\<lparr>processed_data := Some df\<rparr>) = Inr recs
           \<and> count_list recs rec_male =
               (if 65 < share (count_where (\<lambda>r. gender r = gender_male) df) (length df)
                then 1 else 0)
           \<and> count_list recs rec_balance =
               (if 65 < share (count_where (\<lambda>r. gender r = gender_male) df) (length df)
                then 0 else 1)
           \<and> rec_male \<noteq> rec_balance
           \<and> d \<in> department ` set df
           \<and> (\<forall>d'. count_where (\<lambda>x. department x = d') df
                  \<le> count_where (\<lambda>x. department x = d) df)
           \<and> last recs = rec_top_dept @ d
           \<and> filter (prefix rec_top_dept) recs = [rec_top_dept @ d]
           \<and> (length df \<le> 2 ^ 45 \<longrightarrow>
                (65 < share (count_where (\<lambda>r. gender r = gender_male) df) (length df)
                   \<longleftrightarrow> 65 * length df < 100 * count_where (\<lambda>r. gender r = gender_male) df))"
proof -
  have exact: "length df \<le> 2 ^ 45 \<longrightarrow>
      (65 < share (count_where (\<lambda>r. gender r = gender_male) df) (length df)
         \<longleftrightarrow> 65 * length df < 100 * count_where (\<lambda>r. gender r = gender_male) df)"
    using share_exact(1) [of "length df" "count_where (\<lambda>r. gender r = gender_male) df"] assms
    by (simp add: count_where_le)
  from top_reason_first [OF assms] obtain r where r: "iloc0 (mode (map reason df)) = Inr r"
    by blast
  from top_dept_first [OF assms] obtain d
    where d: "iloc0 (map fst (value_counts (map department df))) = Inr d"
      and dp: "d \<in> department ` set df"
        "\<forall>d'. count_where (\<lambda>x. department x = d') df \<le> count_where (\<lambda>x. department x = d) df"
    by blast
  let ?recs = "reason_recommendations r @ service_recommendations df
      @ gender_recommendations df @ [rec_top_dept @ d]"
  note g = generate_recommendations_parts [OF r d, of self]
  have m: "count_list ?recs rec_male =
      (if 65 < share (count_where (\<lambda>r. gender r = gender_male) df) (length df) then 1 else 0)"
    by (simp add: gender_recommendations_eq [OF assms] rec_male_elsewhere)
  have b: "count_list ?recs rec_balance =
      (if 65 < share (count_where (\<lambda>r. gender r = gender_male) df) (length df) then 0 else 1)"
    using rec_male_elsewhere(3)
    by (simp add: gender_recommendations_eq [OF assms] rec_balance_elsewhere)
  have f: "filter (prefix rec_top_dept) ?recs = [rec_top_dept @ d]"
    by (simp add: rec_top_dept_elsewhere)
  show ?thesis
    apply (rule exI [of _ ?recs], rule exI [of _ d])
    apply (rule conjI, rule g)
    using m b f dp rec_male_elsewhere(3) exact by simp
qed

section \<open>One table, end to end\<close>

lemma seven_three_columns:
  "map reason table_seven_three = replicate 7 reason_salary @ replicate 3 reason_salary"
  "map department table_seven_three = replicate 7 dept_it @ replicate 3 dept_hr"
  "map leave_year table_seven_three = replicate 7 2020 @ replicate 3 2020"
  by (simp_all add: table_seven_three_def categorize_fields example_row_def comp_def)

lemma seven_three_more_counts:
  "count_where (\<lambda>x. reason x = reason_salary) table_seven_three = 10"
  "count_where (\<lambda>r. age r < 30) table_seven_three = 0"
  "count_where (\<lambda>r. service_years r < 2) table_seven_three = 0"
  "count_where (\<lambda>x. department x = dept_it) table_seven_three = 7"
  "count_where (\<lambda>x. department x = dept_hr) table_seven_three = 3"
  by (simp_all add: table_seven_three_def count_where_simps categorize_fields example_row_def
      dept_it_def dept_hr_def)

lemma seven_three_top_reason: "iloc0 (mode (map reason table_seven_three)) = Inr reason_salary"
proof -
  from top_reason_first [OF seven_three_counts(1)] obtain r
    where r: "iloc0 (mode (map reason table_seven_three)) = Inr r"
      "r \<in> reason ` set table_seven_three"
    by blast
  have "reason ` set table_seven_three = set (map reason table_seven_three)" by simp
  also have "\<dots> = {reason_salary}" by (simp only: seven_three_columns) simp
  finally show ?thesis using r by simp
qed

lemma seven_three_top_dept:
  "iloc0 (map fst (value_counts (map department table_seven_three))) = Inr dept_it"
proof -
  from top_dept_first [OF seven_three_counts(1)] obtain d
    where d: "iloc0 (map fst (value_counts (map department table_seven_three))) = Inr d"
      "d \<in> department ` set table_seven_three"
      "\<forall>d'. count_where (\<lambda>x. department x = d') table_seven_three
          \<le> count_where (\<lambda>x. department x = d) table_seven_three"
    by blast
  have "department ` set table_seven_three = set (map department table_seven_three)" by simp
  also have "\<dots> = {dept_it, dept_hr}" by (simp only: seven_three_columns) auto
  finally have "d = dept_it \<or> d = dept_hr" using d(2) by simp
  moreover have "7 \<le> count_where (\<lambda>x. department x = d) table_seven_three"
    using d(3) seven_three_more_counts(4) by metis
  ultimately have "d = dept_it" using seven_three_more_counts(5) by auto
  with d(1) show ?thesis by simp
qed

lemma groupby_one_year: "map snd (groupby_size (replicate 7 2020 @ replicate 3 (2020::int))) = [10]"
  by code_simp

lemma seven_three_trend: "yearly_trend_insights table_seven_three = []"
proof -
  have "year_counts table_seven_three = [10]"
    by (simp only: year_counts_groupby seven_three_columns groupby_one_year)
  then show ?thesis by (simp add: yearly_trend_eq)
qed

lemma seven_three_insights:
  "generate_insights (init\<lparr>processed_data := Some table_seven_three\<rparr>) =
     Inr (init\<lparr>processed_data := Some table_seven_three,
              insights :=
                [msg_male_high @ [0x37, 0x30, 0x2E, 0x30] @ msg_pct_close,
                 msg_top_reason @ reason_salary @ msg_pct_open
                 @ [0x31, 0x30, 0x30, 0x2E, 0x30] @ msg_pct_close,
                 msg_top_dept @ dept_it]\<rparr>)"
  by (simp add: generate_insights_parts [OF seven_three_top_reason seven_three_top_dept
        seven_three_counts(1)]
      gender_insights_seven_three seven_three_trend
      age_insights_eq [OF seven_three_counts(1)] service_insights_eq [OF seven_three_counts(1)]
      seven_three_counts seven_three_more_counts share_0 share_10_10 fmt_100)

lemma seven_three_recommendations:
  "generate_recommendations (init\<lparr>processed_data := Some table_seven_three\<rparr>) =
     Inr [rec_salary_1, rec_salary_2, rec_male, rec_top_dept @ dept_it]"
proof -
  have "reason_salary \<noteq> reason_other_job"
    by (simp add: reason_salary_def reason_other_job_def)
  then show ?thesis
    by (simp add: generate_recommendations_parts [OF seven_three_top_reason seven_three_top_dept]
      reason_recommendations_def
      service_recommendations_eq [OF seven_three_counts(1)]
      gender_recommendations_eq [OF seven_three_counts(1)]
      seven_three_counts seven_three_more_counts share_0 share_7_10)
qed

text \<open>The table of seven men and three women: three insights.\<close>

theorem c10_insights_length_witness:
  "\<exists>self'. generate_insights (init\<lparr>processed_data := Some table_seven_three\<rparr>) = Inr self'
     \<and> insights self' =
         [msg_male_high @ [0x37, 0x30, 0x2E, 0x30] @ msg_pct_close,
          msg_top_reason @ reason_salary @ msg_pct_open @ [0x31, 0x30, 0x30, 0x2E, 0x30]
          @ msg_pct_close,
          msg_top_dept @ dept_it]
     \<and> 2 \<le> length (insights self') \<and> length (insights self') \<le> 6"
proof -
  from c10_insights_length [OF seven_three_counts(1), of init] obtain self'
    where "generate_insights (init\<lparr>processed_data := Some table_seven_three\<rparr>) = Inr self'"
      "2 \<le> length (insights self')" "length (insights self') \<le> 6"
    by blast
  then show ?thesis by (auto simp: seven_three_insights)
qed

text \<open>The table of seven men and three women: four recommendations.\<close>

theorem c9_recommendations_length_witness:
  "generate_recommendations (init\<lparr>processed_data := Some table_seven_three\<rparr>) =
     Inr [rec_salary_1, rec_salary_2, rec_male, rec_top_dept @ dept_it]
   \<and> even (length [rec_salary_1, rec_salary_2, rec_male, rec_top_dept @ dept_it])"
proof -
  from c9_recommendations_length [OF seven_three_counts(1), of init] obtain recs
    where "generate_recommendations (init\<lparr>processed_data := Some table_seven_three\<rparr>)
        = Inr recs"
      "even (length recs)"
    by blast
  then show ?thesis by (simp add: seven_three_recommendations)
qed

text \<open>
  The table of seven men and three women: the male-focused string once, the
  work-life-balance string never, one string for the department with seven rows.
\<close>

theorem c5_gender_and_department_witness:
  "\<exists>recs. generate_recommendations (init\<lparr>processed_data := Some table_seven_three\<rparr>)
       = Inr recs
     \<and> recs = [rec_salary_1, rec_salary_2, rec_male, rec_top_dept @ dept_it]
     \<and> count_list recs rec_male = 1 \<and> count_list recs rec_balance = 0
     \<and> filter (prefix rec_top_dept) recs = [rec_top_dept @ dept_it]"
proof -
  from c5_gender_and_department [OF seven_three_counts(1), of init] obtain recs d
    where r: "generate_recommendations (init\<lparr>processed_data := Some table_seven_three\<rparr>)
        = Inr recs"
      and c: "count_list recs rec_male =
          (if 65 < share (count_where (\<lambda>r. gender r = gender_male) table_seven_three)
                (length table_seven_three) then 1 else 0)"
        "count_list recs rec_balance =
          (if 65 < share (count_where (\<lambda>r. gender r = gender_male) table_seven_three)
                (length table_seven_three) then 0 else 1)"
      and f: "filter (prefix rec_top_dept) recs = [rec_top_dept @ d]"
      and l: "last recs = rec_top_dept @ d"
    by blast
  from r have recs: "recs = [rec_salary_1, rec_salary_2, rec_male, rec_top_dept @ dept_it]"
    by (simp add: seven_three_recommendations)
  with l have "d = dept_it" by simp
  with r recs c f show ?thesis
    by (simp only: seven_three_counts share_7_10) simp
qed

end
